theory Spec2Isabelle
  imports Main "HOL-Library.Word" "HOL-Library.Code_Target_Nat"
begin

section \<open>The game ledger: contracts/EncryptedPokerGame.sol\<close>

subsection \<open>Data model\<close>

text \<open>
  Solidity's \<open>address\<close> is a 160-bit value, \<open>uint8\<close> and \<open>uint256\<close> are machine
  integers, and an \<open>euint8\<close> is a 32-byte handle into the external FHE coprocessor.
  Amounts of wei (the contract's balance, \<open>msg.value\<close>, the rewards) are natural numbers:
  the contract only compares them with constants and hands them to the EVM's value
  transfer, which never wraps.
\<close>

type_synonym address = "160 word"
type_synonym uint8 = "8 word"
type_synonym uint256 = "256 word"
type_synonym bytes32 = "256 word"

definition GAME_FEE :: nat where
  "GAME_FEE = 1000000000000000"

definition SUIT_REWARD :: nat where
  "SUIT_REWARD = 100000000000000"

definition RANK_REWARD :: nat where
  "RANK_REWARD = 1000000000000000"

definition FULL_REWARD :: nat where
  "FULL_REWARD = 2000000000000000"

record GameSession =
  encryptedSuit :: bytes32
  encryptedRank :: bytes32
  suit :: uint8
  rank :: uint8
  active :: bool

text \<open>
  The contract's storage (\<open>games\<close>, \<open>_owner\<close>, \<open>_nonce\<close>) together with the balance
  of its account. A key never written maps to the all-zero session, as a Solidity
  mapping does.
\<close>

record state =
  games :: "address \<Rightarrow> GameSession"
  owner :: address
  nonce :: uint256
  balance :: nat

definition zero_session :: GameSession where
  "zero_session = \<lparr>encryptedSuit = 0, encryptedRank = 0, suit = 0, rank = 0, active = False\<rparr>"

datatype error =
    ActiveGameExists
  | InvalidFee
  | InvalidGuess
  | NoActiveGame
  | TransferFailed
  | InsufficientBankroll
  | AmountExceedsBalance
  | NotOwner
  | InvalidOwner
  | InvalidRecipient

datatype event =
    GameStarted address bytes32 bytes32
  | GuessEvaluated address bool bool nat
  | OwnershipTransferred address address

text \<open>
  What a call does outside the contract's own storage, in program order: the logs it
  emits and the decryption rights it grants in the FHE access-control list.
\<close>

datatype effect =
    Log event
  | FheAllow bytes32 address

text \<open>
  The environment of one call: the contract's own address, the block fields read by
  \<open>_drawCard\<close>, the hash of the packed tuple given to \<open>keccak256\<close>, and the handle the
  FHE library returns for the n-th \<open>asEuint8\<close> of the call.
\<close>

record env =
  this_address :: address
  prevrandao :: uint256
  timestamp :: uint256
  keccak256 :: "uint256 \<Rightarrow> uint256 \<Rightarrow> address \<Rightarrow> uint256 \<Rightarrow> uint256"
  asEuint8 :: "nat \<Rightarrow> uint8 \<Rightarrow> bytes32"

text \<open>
  A call either reverts with a named error, and then nothing of what it did survives,
  or returns its value with the new state and its effects.
\<close>

type_synonym 'a result = "error + ('a \<times> state \<times> effect list)"

definition state_after :: "state \<Rightarrow> 'a result \<Rightarrow> state" where
  "state_after s r = (case r of Inl _ \<Rightarrow> s | Inr (_, s', _) \<Rightarrow> s')"

definition effects_of :: "'a result \<Rightarrow> effect list" where
  "effects_of r = (case r of Inl _ \<Rightarrow> [] | Inr (_, _, fx) \<Rightarrow> fx)"

text \<open>
  The code at the recipient of a value transfer. It is given control with the ledger
  as it is at that moment, the value already moved, and either reverts (\<open>None\<close>) or
  returns; while it runs it can call back into the ledger, which has no re-entrancy
  guard, so it returns the ledger as those calls left it, with the effects they had.
\<close>

type_synonym callee = "state \<Rightarrow> (state \<times> effect list) option"

text \<open>A recipient that makes no call into the ledger, such as an externally owned account.\<close>

definition plain_recipient :: callee where
  "plain_recipient s = Some (s, [])"

definition rejecting_recipient :: callee where
  "rejecting_recipient s = None"

text \<open>A recipient that accepts or rejects, but in no case calls into the ledger.\<close>

definition makes_no_call :: "callee \<Rightarrow> bool" where
  "makes_no_call c = (\<forall>s. c s = None \<or> c s = Some (s, []))"

subsection \<open>Value transfers\<close>

text \<open>
  \<open>to.call{value: v}("")\<close>. The EVM moves the value first and then runs the recipient's
  code. When the recipient is the contract itself the code is its own empty
  \<open>receive()\<close>: the transfer succeeds and the balance is what it was. Callers check
  \<open>v \<le> balance\<close> before.
\<close>

definition call_value ::
  "env \<Rightarrow> callee \<Rightarrow> state \<Rightarrow> address \<Rightarrow> nat \<Rightarrow> (state \<times> effect list) option" where
  "call_value e recipient_code s to v =
     (if to = this_address e then Some (s, [])
      else recipient_code (s\<lparr>balance := balance s - v\<rparr>))"

subsection \<open>Operations\<close>

text \<open>
  Deployment. The constructor is not payable, but the address may hold wei sent to it
  before the contract existed, so the balance the contract starts with is a parameter.
\<close>

definition initial_state :: "address \<Rightarrow> nat \<Rightarrow> state" where
  "initial_state deployer funds =
     \<lparr>games = (\<lambda>_. zero_session), owner = deployer, nonce = 0, balance = funds\<rparr>"

definition constructor :: "address \<Rightarrow> nat \<Rightarrow> unit result" where
  "constructor msg_sender funds =
     Inr ((), initial_state msg_sender funds, [Log (OwnershipTransferred 0 msg_sender)])"

definition transferOwnership :: "state \<Rightarrow> address \<Rightarrow> address \<Rightarrow> unit result" where
  "transferOwnership s msg_sender newOwner =
     (if msg_sender \<noteq> owner s then Inl NotOwner
      else if newOwner = 0 then Inl InvalidOwner
      else let previousOwner = owner s
           in Inr ((), s\<lparr>owner := newOwner\<rparr>, [Log (OwnershipTransferred previousOwner newOwner)]))"

text \<open>
  \<open>_drawCard\<close>: the seed is the hash of (prevrandao, timestamp, player, nonce); the
  nonce is incremented in an \<open>unchecked\<close> block, so it wraps at \<open>2^256\<close>.
\<close>

definition suit_of_seed :: "uint256 \<Rightarrow> uint8" where
  "suit_of_seed randomSeed = ucast ((randomSeed mod 4) + 1)"

definition rank_of_seed :: "uint256 \<Rightarrow> uint8" where
  "rank_of_seed randomSeed = ucast ((drop_bit 16 randomSeed mod 13) + 1)"

definition drawCard :: "env \<Rightarrow> state \<Rightarrow> address \<Rightarrow> (uint8 \<times> uint8) \<times> state" where
  "drawCard e s player =
     (let randomSeed = keccak256 e (prevrandao e) (timestamp e) player (nonce s);
          s' = s\<lparr>nonce := nonce s + 1\<rparr>
      in ((suit_of_seed randomSeed, rank_of_seed randomSeed), s'))"

text \<open>
  \<open>startGame\<close> is payable: the fee is part of the contract's balance from the first
  instruction on, and goes back to the caller when the call reverts.
\<close>

definition startGame :: "env \<Rightarrow> state \<Rightarrow> address \<Rightarrow> nat \<Rightarrow> (bytes32 \<times> bytes32) result" where
  "startGame e s msg_sender msg_value =
     (let s0 = s\<lparr>balance := balance s + msg_value\<rparr> in
      if msg_value \<noteq> GAME_FEE then Inl InvalidFee
      else let session = games s0 msg_sender in
      if active session then Inl ActiveGameExists
      else if balance s0 < FULL_REWARD then Inl InsufficientBankroll
      else
        let ((suitValue, rankValue), s1) = drawCard e s0 msg_sender;
            suitCipher = asEuint8 e 0 suitValue;
            rankCipher = asEuint8 e 1 rankValue;
            session' = session\<lparr>encryptedSuit := suitCipher, encryptedRank := rankCipher,
                               suit := suitValue, rank := rankValue, active := True\<rparr>;
            s2 = s1\<lparr>games := (games s1)(msg_sender := session')\<rparr>
        in Inr ((suitCipher, rankCipher), s2,
                [FheAllow suitCipher (this_address e), FheAllow rankCipher (this_address e),
                 FheAllow suitCipher msg_sender, FheAllow rankCipher msg_sender,
                 Log (GameStarted msg_sender suitCipher rankCipher)]))"

definition makeGuess ::
  "env \<Rightarrow> callee \<Rightarrow> state \<Rightarrow> address \<Rightarrow> uint8 \<Rightarrow> uint8 \<Rightarrow> unit result" where
  "makeGuess e sender_code s msg_sender suitGuess rankGuess =
     (if suitGuess < 1 \<or> suitGuess > 4 \<or> rankGuess < 1 \<or> rankGuess > 13 then Inl InvalidGuess
      else let session = games s msg_sender in
      if \<not> active session then Inl NoActiveGame
      else
        let suitMatched = (suit session = suitGuess);
            rankMatched = (rank session = rankGuess);
            reward = (if suitMatched \<and> rankMatched then FULL_REWARD
                      else if rankMatched then RANK_REWARD
                      else if suitMatched then SUIT_REWARD
                      else 0);
            s1 = s\<lparr>games := (games s)(msg_sender := session\<lparr>active := False\<rparr>)\<rparr>;
            s2 = s1\<lparr>games := (games s1)(msg_sender := zero_session)\<rparr>;
            logs = [Log (GuessEvaluated msg_sender suitMatched rankMatched reward)]
        in if reward > 0 then
             (if balance s2 < reward then Inl InsufficientBankroll
              else case call_value e sender_code s2 msg_sender reward of
                     None \<Rightarrow> Inl TransferFailed
                   | Some (s3, fx) \<Rightarrow> Inr ((), s3, fx @ logs))
           else Inr ((), s2, logs))"

definition getActiveGame :: "state \<Rightarrow> address \<Rightarrow> bool \<times> bytes32 \<times> bytes32" where
  "getActiveGame s player =
     (let session = games s player
      in if active session then (True, encryptedSuit session, encryptedRank session)
         else (False, 0, 0))"

definition withdraw ::
  "env \<Rightarrow> callee \<Rightarrow> state \<Rightarrow> address \<Rightarrow> address \<Rightarrow> nat \<Rightarrow> unit result" where
  "withdraw e recipient_code s msg_sender recipient amount =
     (if msg_sender \<noteq> owner s then Inl NotOwner
      else if recipient = 0 then Inl InvalidRecipient
      else if amount > balance s then Inl AmountExceedsBalance
      else case call_value e recipient_code s recipient amount of
             None \<Rightarrow> Inl TransferFailed
           | Some (s', fx) \<Rightarrow> Inr ((), s', fx))"

definition houseBalance :: "state \<Rightarrow> nat" where
  "houseBalance s = balance s"

definition receive :: "state \<Rightarrow> nat \<Rightarrow> unit result" where
  "receive s msg_value = Inr ((), s\<lparr>balance := balance s + msg_value\<rparr>, [])"

subsection \<open>Transactions\<close>

text \<open>
  The ledger's write entry points as calls. A call that reverts leaves the state as it
  was and has no effect. Each call runs in its own environment and with the code that
  receives the value, if the call sends any.
\<close>

datatype tx =
    TxStartGame address nat
  | TxMakeGuess address uint8 uint8
  | TxWithdraw address address nat
  | TxTransferOwnership address address
  | TxReceive nat

definition outcome :: "state \<Rightarrow> 'a result \<Rightarrow> state \<times> effect list" where
  "outcome s r = (state_after s r, effects_of r)"

fun exec :: "env \<Rightarrow> tx \<Rightarrow> callee \<Rightarrow> state \<Rightarrow> state \<times> effect list" where
  "exec e (TxStartGame p v) c s = outcome s (startGame e s p v)"
| "exec e (TxMakeGuess p sg rg) c s = outcome s (makeGuess e c s p sg rg)"
| "exec e (TxWithdraw w r a) c s = outcome s (withdraw e c s w r a)"
| "exec e (TxTransferOwnership w n) c s = outcome s (transferOwnership s w n)"
| "exec e (TxReceive v) c s = outcome s (receive s v)"

fun run :: "(env \<times> tx \<times> callee) list \<Rightarrow> state \<Rightarrow> state \<times> effect list" where
  "run [] s = (s, [])"
| "run ((e, t, c) # calls) s =
     (let (s1, fx1) = exec e t c s; (s2, fx2) = run calls s1 in (s2, fx1 @ fx2))"

text \<open>
  What the code of a recipient can do to the ledger: revert, or make calls into it, one
  after the other, and return. Each of these calls may send value in its turn, to code
  that behaves in the same way. A call that the recipient makes and that reverts is
  caught by the recipient; when the recipient itself reverts, nothing of what it did
  survives.
\<close>

datatype reaction =
    Rejects
  | Accepts "(env \<times> tx \<times> reaction) list"

primrec code_of :: "reaction \<Rightarrow> callee" where
  "code_of Rejects = (\<lambda>s. None)"
| "code_of (Accepts calls) =
     (\<lambda>s. Some (run (map (map_prod id (map_prod id code_of)) calls) s))"

text \<open>A run of transactions, each with the reaction of the code that receives its value.\<close>

definition run_calls :: "(env \<times> tx \<times> reaction) list \<Rightarrow> state \<Rightarrow> state \<times> effect list" where
  "run_calls calls s = run (map (map_prod id (map_prod id code_of)) calls) s"

text \<open>
  The sessions of a player that were opened and closed, counted by the events that a
  successful \<open>startGame\<close> and a successful \<open>makeGuess\<close> emit.
\<close>

fun is_started :: "address \<Rightarrow> effect \<Rightarrow> bool" where
  "is_started p (Log (GameStarted q suitHandle rankHandle)) = (q = p)"
| "is_started p _ = False"

fun is_evaluated :: "address \<Rightarrow> effect \<Rightarrow> bool" where
  "is_evaluated p (Log (GuessEvaluated q suitMatched rankMatched reward)) = (q = p)"
| "is_evaluated p _ = False"

definition opened :: "address \<Rightarrow> effect list \<Rightarrow> nat" where
  "opened p fx = length (filter (is_started p) fx)"

definition closed :: "address \<Rightarrow> effect list \<Rightarrow> nat" where
  "closed p fx = length (filter (is_evaluated p) fx)"

subsection \<open>Sample accounts, environments and states\<close>

text \<open>
  Concrete data on which the general statements below are instantiated. The hash and
  the handles of \<open>sample_env\<close> are arbitrary functions: every statement holds for all
  of them. \<open>playing_state\<close> is the ledger after \<open>alice\<close> started a game in \<open>sample_env\<close>
  on a ledger deployed by \<open>bob\<close>.
\<close>

definition alice :: address where
  "alice = 0xA11CE"

definition bob :: address where
  "bob = 0xB0B"

definition house :: address where
  "house = 0xC0DE"

definition sample_env :: env where
  "sample_env =
     \<lparr>this_address = house, prevrandao = 7, timestamp = 1700000000,
      keccak256 = (\<lambda>r t p n. r + t + ucast p + n),
      asEuint8 = (\<lambda>k v. 1000 + 256 * of_nat k + ucast v)\<rparr>"

text \<open>A recipient that starts a game for \<open>alice\<close> while it receives the value.\<close>

definition restarting :: reaction where
  "restarting = Accepts [(sample_env, TxStartGame alice GAME_FEE, Rejects)]"

text \<open>The owner \<open>bob\<close> as a recipient that hands the ownership to \<open>alice\<close> while it receives the value.\<close>

definition handing_over :: reaction where
  "handing_over = Accepts [(sample_env, TxTransferOwnership bob alice, Rejects)]"

definition sample_session :: GameSession where
  "sample_session = \<lparr>encryptedSuit = 1002, encryptedRank = 1259, suit = 2, rank = 3, active = True\<rparr>"

definition playing_state :: "nat \<Rightarrow> state" where
  "playing_state funds =
     \<lparr>games = (\<lambda>_. zero_session)(alice := sample_session), owner = bob, nonce = 1, balance = funds\<rparr>"

section \<open>The session client: game/src/components/PokerGame.tsx\<close>

text \<open>
  The component submits a transaction, waits for it and reads the result from the
  receipt's logs. The wallet, the RPC layer and the ABI decoder are outside it; the model
  takes their answers as inputs: whether a wallet is connected, whether a signer is
  available, whether the active-game query holds a game, what submitting the
  transaction and waiting for it gave (an error thrown by the RPC layer, or a receipt),
  and what \<open>parseLog\<close> makes of each log of the receipt.
\<close>

subsection \<open>Logs and errors\<close>

datatype log_args =
    GameStartedArgs string string
  | GuessEvaluatedArgs bool bool nat
  | OtherArgs

text \<open>
  \<open>contractInterface.parseLog(log)\<close> throws, returns null, or returns a description
  with the event's name and arguments.
\<close>

datatype parsed_log =
    ParseThrows
  | ParseNull
  | LogDescription string log_args

text \<open>\<open>args.encryptedSuit\<close> and \<open>args.encryptedRank\<close>: undefined on other events.\<close>

fun encryptedSuitArg :: "log_args \<Rightarrow> string option" where
  "encryptedSuitArg (GameStartedArgs s r) = Some s"
| "encryptedSuitArg _ = None"

fun encryptedRankArg :: "log_args \<Rightarrow> string option" where
  "encryptedRankArg (GameStartedArgs s r) = Some r"
| "encryptedRankArg _ = None"

text \<open>
  What the RPC layer throws when the transaction is rejected or reverts: an error
  object with a message and, where the node returned it, the revert data under
  \<open>data\<close>, \<open>error.data\<close> or \<open>info.error.data\<close>.
\<close>

record rpc_error =
  data :: "string option"
  error_data :: "string option"
  info_error_data :: "string option"
  message :: string

text \<open>
  The values the mutations throw: \<open>Error msg\<close> is \<open>new Error(msg)\<close>, made by the
  component itself; \<open>Thrown e\<close> is the error of the RPC layer, passed on untouched.
\<close>

datatype js_error =
    Error string
  | Thrown rpc_error

datatype tx_outcome =
    TxFailed rpc_error
  | TxReceipt "parsed_log list"

record client =
  isConnected :: bool
  signer :: bool
  address :: bool
  activeGame :: bool

subsection \<open>formatError\<close>

definition messageMap :: "string \<Rightarrow> string option" where
  "messageMap = map_of
     [(''ActiveGameExists'', ''You already have an active game. Finish it before starting another.''),
      (''InvalidFee'', ''The transaction did not include the required game fee.''),
      (''InvalidGuess'', ''Guesses must use suits 1-4 and ranks 1-13.''),
      (''NoActiveGame'', ''No active game found for this wallet.''),
      (''InsufficientBankroll'', ''The house balance is too low to cover the full reward. Fund the contract before starting.''),
      (''TransferFailed'', ''A reward transfer failed. Please try again.''),
      (''AmountExceedsBalance'', ''Requested withdrawal exceeds the available balance.''),
      (''NotOwner'', ''Only the contract owner can perform this action.''),
      (''InvalidOwner'', ''New owner address cannot be zero.''),
      (''InvalidRecipient'', ''Recipient address cannot be zero.'')]"

text \<open>
  \<open>lookupCustomError\<close> walks the data sources. \<open>parseError\<close> gives the name of the
  custom error that a revert data decodes to; \<open>None\<close> stands for both of its failures
  (null, or an exception, which the loop ignores).
\<close>

fun lookupCustomError :: "(string \<Rightarrow> string option) \<Rightarrow> string option list \<Rightarrow> string option" where
  "lookupCustomError parseError [] = None"
| "lookupCustomError parseError (None # dataSources) = lookupCustomError parseError dataSources"
| "lookupCustomError parseError (Some source # dataSources) =
     (if take 2 source = ''0x'' then
        (case parseError source of
           None \<Rightarrow> lookupCustomError parseError dataSources
         | Some name \<Rightarrow> Some (case messageMap name of Some m \<Rightarrow> m | None \<Rightarrow> name))
      else lookupCustomError parseError dataSources)"

fun dataSources_of :: "js_error \<Rightarrow> string option list" where
  "dataSources_of (Error msg) = [None, None, None]"
| "dataSources_of (Thrown e) = [data e, error_data e, info_error_data e]"

fun message_of :: "js_error \<Rightarrow> string" where
  "message_of (Error msg) = msg"
| "message_of (Thrown e) = message e"

text \<open>
  \<open>formatError(error, iface)\<close> on a thrown error object: the custom message when there
  is a non-empty one, else the error's own message. (Its branches for a missing error,
  a string and an object that is not an \<open>Error\<close> are never reached from the mutations.)
\<close>

definition formatError :: "(string \<Rightarrow> string option) \<Rightarrow> js_error \<Rightarrow> string" where
  "formatError parseError err =
     (case lookupCustomError parseError (dataSources_of err) of
        Some customMessage \<Rightarrow> if customMessage \<noteq> [] then customMessage else message_of err
      | None \<Rightarrow> message_of err)"

subsection \<open>What the user sees\<close>

datatype feedback_type = FeedbackSuccess | FeedbackError

datatype feedback = Feedback feedback_type string

record ui =
  guessResult :: "(bool \<times> bool \<times> nat) option"
  lastHandles :: "(string \<times> string) option"
  feedback :: "feedback option"
  invalidated :: "string list"

definition invalidate_after :: "client \<Rightarrow> ui \<Rightarrow> ui" where
  "invalidate_after c u =
     u\<lparr>invalidated := invalidated u @ (if address c then [''active-game''] else []) @ [''house-balance'']\<rparr>"

subsection \<open>startGameMutation\<close>

text \<open>The loop over \<open>receipt.logs\<close>: the first log named \<open>GameStarted\<close> ends it.\<close>

fun findGameStarted :: "parsed_log list \<Rightarrow> string option \<times> string option" where
  "findGameStarted [] = (None, None)"
| "findGameStarted (ParseThrows # logs) = findGameStarted logs"
| "findGameStarted (ParseNull # logs) = findGameStarted logs"
| "findGameStarted (LogDescription name args # logs) =
     (if name = ''GameStarted'' then (encryptedSuitArg args, encryptedRankArg args)
      else findGameStarted logs)"

text \<open>\<open>suitHandle && rankHandle ? { suit, rank } : null\<close>: an empty string is falsy.\<close>

definition handles_or_null :: "string option \<times> string option \<Rightarrow> (string \<times> string) option" where
  "handles_or_null h =
     (case h of
        (Some suitHandle, Some rankHandle) \<Rightarrow>
          if suitHandle \<noteq> [] \<and> rankHandle \<noteq> [] then Some (suitHandle, rankHandle) else None
      | _ \<Rightarrow> None)"

definition startGameMutationFn :: "client \<Rightarrow> tx_outcome \<Rightarrow> js_error + (string \<times> string) option" where
  "startGameMutationFn c tx =
     (if \<not> isConnected c then Inl (Error ''Connect a wallet on Sepolia to start.'')
      else if \<not> signer c then Inl (Error ''Wallet signer unavailable.'')
      else case tx of
             TxFailed e \<Rightarrow> Inl (Thrown e)
           | TxReceipt logs \<Rightarrow> Inr (handles_or_null (findGameStarted logs)))"

definition startGameMutation ::
  "(string \<Rightarrow> string option) \<Rightarrow> client \<Rightarrow> tx_outcome \<Rightarrow> ui \<Rightarrow> ui" where
  "startGameMutation parseError c tx u =
     (case startGameMutationFn c tx of
        Inr handles \<Rightarrow>
          (invalidate_after c u)
            \<lparr>guessResult := None, lastHandles := handles,
             feedback := Some (Feedback FeedbackSuccess
                                 ''A fresh encrypted card is ready. Time to guess!'')\<rparr>
      | Inl err \<Rightarrow> u\<lparr>feedback := Some (Feedback FeedbackError (formatError parseError err))\<rparr>)"

subsection \<open>guessMutation\<close>

text \<open>
  The loop over \<open>receipt.logs\<close> returns at the first log named \<open>GuessEvaluated\<close>.
  \<open>BigInt(undefined)\<close> throws inside the \<open>try\<close>, so a log of that name without a reward
  is skipped like one that fails to parse.
\<close>

fun findGuessEvaluated :: "parsed_log list \<Rightarrow> (bool \<times> bool \<times> nat) option" where
  "findGuessEvaluated [] = None"
| "findGuessEvaluated (ParseThrows # logs) = findGuessEvaluated logs"
| "findGuessEvaluated (ParseNull # logs) = findGuessEvaluated logs"
| "findGuessEvaluated (LogDescription name args # logs) =
     (if name = ''GuessEvaluated'' then
        (case args of
           GuessEvaluatedArgs suitMatched rankMatched reward \<Rightarrow> Some (suitMatched, rankMatched, reward)
         | _ \<Rightarrow> findGuessEvaluated logs)
      else findGuessEvaluated logs)"

definition guessMutationFn :: "client \<Rightarrow> tx_outcome \<Rightarrow> js_error + (bool \<times> bool \<times> nat)" where
  "guessMutationFn c tx =
     (if \<not> isConnected c then Inl (Error ''Connect a wallet to submit a guess.'')
      else if \<not> activeGame c then Inl (Error ''Start a game before guessing.'')
      else if \<not> signer c then Inl (Error ''Wallet signer unavailable.'')
      else case tx of
             TxFailed e \<Rightarrow> Inl (Thrown e)
           | TxReceipt logs \<Rightarrow>
               (case findGuessEvaluated logs of
                  Some result \<Rightarrow> Inr result
                | None \<Rightarrow> Inl (Error ''Unable to read guess result from transaction logs.'')))"

definition guess_feedback :: "(nat \<Rightarrow> string) \<Rightarrow> bool \<times> bool \<times> nat \<Rightarrow> feedback" where
  "guess_feedback formatEther result =
     (case result of (suitMatched, rankMatched, reward) \<Rightarrow>
        let rewardText = (if reward > 0 then formatEther reward @ '' ETH rewarded.''
                          else ''No payout this round.'')
        in if reward > 0 then Feedback FeedbackSuccess (''Victory! '' @ rewardText)
           else if suitMatched \<or> rankMatched then
             Feedback FeedbackSuccess
               (''Close call! '' @ (if suitMatched then ''Suit matched. '' else '''') @
                (if rankMatched then ''Rank matched.'' else ''Rank missed.'') @ '' '' @ rewardText)
           else Feedback FeedbackError ''No matches. Try another combination.'')"

definition guessMutation ::
  "(string \<Rightarrow> string option) \<Rightarrow> (nat \<Rightarrow> string) \<Rightarrow> client \<Rightarrow> tx_outcome \<Rightarrow> ui \<Rightarrow> ui" where
  "guessMutation parseError formatEther c tx u =
     (case guessMutationFn c tx of
        Inr result \<Rightarrow>
          (invalidate_after c u)
            \<lparr>guessResult := Some result, feedback := Some (guess_feedback formatEther result)\<rparr>
      | Inl err \<Rightarrow> u\<lparr>feedback := Some (Feedback FeedbackError (formatError parseError err))\<rparr>)"

subsection \<open>Sample client data\<close>

definition ready_client :: client where
  "ready_client = \<lparr>isConnected = True, signer = True, address = True, activeGame = True\<rparr>"

definition blank_ui :: ui where
  "blank_ui = \<lparr>guessResult = None, lastHandles = None, feedback = None, invalidated = []\<rparr>"

definition sample_revert :: rpc_error where
  "sample_revert =
     \<lparr>data = Some ''0x5b4ea6ba'', error_data = None, info_error_data = None,
      message = ''execution reverted''\<rparr>"

definition sample_parseError :: "string \<Rightarrow> string option" where
  "sample_parseError d = (if d = ''0x5b4ea6ba'' then Some ''NoActiveGame'' else None)"

section \<open>Properties of the ledger\<close>

subsection \<open>Facts about the sample data\<close>

lemma playing_state_alice:
  "games (playing_state f) alice = sample_session" "balance (playing_state f) = f"
  "owner (playing_state f) = bob" "nonce (playing_state f) = 1"
  by (simp_all add: playing_state_def)

lemma playing_state_bob: "games (playing_state f) bob = zero_session"
  by (simp add: playing_state_def alice_def bob_def)

lemma accounts_distinct:
  "alice \<noteq> bob" "bob \<noteq> alice" "alice \<noteq> house" "house \<noteq> alice" "bob \<noteq> house" "house \<noteq> bob"
  "alice \<noteq> 0" "bob \<noteq> 0" "house \<noteq> 0"
  by (simp_all add: alice_def bob_def house_def)

lemma sample_env_simps:
  "this_address sample_env = house"
  by (simp add: sample_env_def)

lemma recipient_simps:
  "plain_recipient s = Some (s, [])" "rejecting_recipient s = None"
  "makes_no_call plain_recipient" "makes_no_call rejecting_recipient"
  by (simp_all add: plain_recipient_def rejecting_recipient_def makes_no_call_def)

lemma makes_no_call_D:
  assumes "makes_no_call c" and "c x = Some (y, fx0)"
  shows "y = x \<and> fx0 = []"
proof -
  from assms(1) have "c x = None \<or> c x = Some (x, [])"
    unfolding makes_no_call_def by (rule spec)
  with assms(2) show ?thesis by auto
qed

lemma sample_session_simps:
  "suit sample_session = 2" "rank sample_session = 3" "active sample_session"
  by (simp_all add: sample_session_def)

lemma initial_state_simps:
  "games (initial_state d f) q = zero_session" "balance (initial_state d f) = f"
  "owner (initial_state d f) = d" "nonce (initial_state d f) = 0"
  by (simp_all add: initial_state_def)

subsection \<open>How the operations succeed\<close>

lemma in_range_not_invalid:
  "1 \<le> (sg::uint8) \<and> sg \<le> 4 \<and> 1 \<le> rg \<and> rg \<le> 13 \<Longrightarrow> \<not> (sg < 1 \<or> sg > 4 \<or> rg < 1 \<or> rg > (13::uint8))"
  by (auto simp add: not_less)

lemma startGame_success:
  "msg_value = GAME_FEE \<Longrightarrow> \<not> active (games s p) \<Longrightarrow> FULL_REWARD \<le> balance s + msg_value \<Longrightarrow>
   startGame e s p msg_value =
     (let seed = keccak256 e (prevrandao e) (timestamp e) p (nonce s);
          suitCipher = asEuint8 e 0 (suit_of_seed seed);
          rankCipher = asEuint8 e 1 (rank_of_seed seed)
      in Inr ((suitCipher, rankCipher),
           s\<lparr>balance := balance s + msg_value, nonce := nonce s + 1,
             games := (games s)(p := (games s p)\<lparr>encryptedSuit := suitCipher, encryptedRank := rankCipher,
                                      suit := suit_of_seed seed, rank := rank_of_seed seed, active := True\<rparr>)\<rparr>,
           [FheAllow suitCipher (this_address e), FheAllow rankCipher (this_address e),
            FheAllow suitCipher p, FheAllow rankCipher p,
            Log (GameStarted p suitCipher rankCipher)]))"
  by (simp add: startGame_def drawCard_def Let_def not_less)

lemma startGame_Inr_D:
  "startGame e s p v = Inr (h, s', fx) \<Longrightarrow>
     v = GAME_FEE \<and> \<not> active (games s p) \<and> FULL_REWARD \<le> balance s + v \<and>
     active (games s' p) \<and> (\<forall>q. q \<noteq> p \<longrightarrow> games s' q = games s q) \<and>
     owner s' = owner s \<and> nonce s' = nonce s + 1 \<and> balance s' = balance s + v"
  by (auto simp add: startGame_def drawCard_def Let_def split: if_splits)

lemma zero_session_inactive: "\<not> active zero_session"
  by (simp add: zero_session_def)

lemma makeGuess_in_range:
  assumes "1 \<le> suitGuess \<and> suitGuess \<le> 4 \<and> 1 \<le> rankGuess \<and> rankGuess \<le> 13"
    and "active (games s p)"
  shows "makeGuess e c s p suitGuess rankGuess =
     (let suitMatched = (suit (games s p) = suitGuess);
          rankMatched = (rank (games s p) = rankGuess);
          reward = (if suitMatched \<and> rankMatched then FULL_REWARD
                    else if rankMatched then RANK_REWARD
                    else if suitMatched then SUIT_REWARD
                    else 0);
          s2 = s\<lparr>games := (games s)(p := zero_session)\<rparr>;
          logs = [Log (GuessEvaluated p suitMatched rankMatched reward)]
      in if reward > 0 then
           (if balance s < reward then Inl InsufficientBankroll
            else case call_value e c s2 p reward of
                   None \<Rightarrow> Inl TransferFailed
                 | Some (s3, fx) \<Rightarrow> Inr ((), s3, fx @ logs))
         else Inr ((), s2, logs))"
proof -
  have "\<not> (suitGuess < 1 \<or> suitGuess > 4 \<or> rankGuess < 1 \<or> rankGuess > 13)"
    using assms(1) by (rule in_range_not_invalid)
  then show ?thesis
    unfolding makeGuess_def using assms(2) by (simp add: Let_def)
qed

lemma settle_paid:
  "0 < reward \<Longrightarrow>
   (if balance s < reward then Inl InsufficientBankroll
    else case call_value e c (s\<lparr>games := g\<rparr>) p reward of
           None \<Rightarrow> Inl TransferFailed
         | Some (s3, fx) \<Rightarrow> Inr ((), s3, fx @ logs)) =
   (if 0 < reward \<and> balance s < reward then Inl InsufficientBankroll
    else if reward = 0 \<or> p = this_address e then Inr ((), s\<lparr>games := g\<rparr>, logs)
    else case c (s\<lparr>games := g, balance := balance s - reward\<rparr>) of
           None \<Rightarrow> Inl TransferFailed
         | Some (s3, fx) \<Rightarrow> Inr ((), s3, fx @ logs))"
  by (simp add: call_value_def)

lemma makeGuess_outcome:
  assumes "1 \<le> suitGuess \<and> suitGuess \<le> 4 \<and> 1 \<le> rankGuess \<and> rankGuess \<le> 13"
    and "active (games s p)"
    and "reward = (if suit (games s p) = suitGuess \<and> rank (games s p) = rankGuess then FULL_REWARD
                   else if rank (games s p) = rankGuess then RANK_REWARD
                   else if suit (games s p) = suitGuess then SUIT_REWARD else 0)"
  shows "makeGuess e c s p suitGuess rankGuess =
        (if 0 < reward \<and> balance s < reward then Inl InsufficientBankroll
         else if reward = 0 \<or> p = this_address e then
           Inr ((), s\<lparr>games := (games s)(p := zero_session)\<rparr>,
                [Log (GuessEvaluated p (suit (games s p) = suitGuess)
                                       (rank (games s p) = rankGuess) reward)])
         else case c (s\<lparr>games := (games s)(p := zero_session),
                         balance := balance s - reward\<rparr>) of
                None \<Rightarrow> Inl TransferFailed
              | Some (s3, fx) \<Rightarrow>
                  Inr ((), s3, fx @ [Log (GuessEvaluated p (suit (games s p) = suitGuess)
                                            (rank (games s p) = rankGuess) reward)]))"
proof (cases "0 < reward")
  case True
  have "makeGuess e c s p suitGuess rankGuess =
        (if balance s < reward then Inl InsufficientBankroll
         else case call_value e c (s\<lparr>games := (games s)(p := zero_session)\<rparr>) p reward of
                None \<Rightarrow> Inl TransferFailed
              | Some (s3, fx) \<Rightarrow>
                  Inr ((), s3, fx @ [Log (GuessEvaluated p (suit (games s p) = suitGuess)
                                          (rank (games s p) = rankGuess) reward)]))"
    using True assms(3) by (simp only: makeGuess_in_range [OF assms(1,2)] Let_def if_True)
  then show ?thesis
    by (simp only: settle_paid [OF True])
next
  case False
  then have z: "reward = 0" by simp
  have "makeGuess e c s p suitGuess rankGuess =
        Inr ((), s\<lparr>games := (games s)(p := zero_session)\<rparr>,
             [Log (GuessEvaluated p (suit (games s p) = suitGuess)
                                     (rank (games s p) = rankGuess) reward)])"
    using False assms(3) by (simp only: makeGuess_in_range [OF assms(1,2)] Let_def if_False)
  then show ?thesis
    by (simp add: z)
qed

lemma makeGuess_Inr_D:
  assumes "makeGuess e c s p suitGuess rankGuess = Inr (u, s', fx)"
  shows "active (games s p) \<and>
         (\<exists>sm rm reward.
            (s' = s\<lparr>games := (games s)(p := zero_session)\<rparr> \<and>
             fx = [Log (GuessEvaluated p sm rm reward)]) \<or>
            (\<exists>fx0. c (s\<lparr>games := (games s)(p := zero_session), balance := balance s - reward\<rparr>) =
               Some (s', fx0) \<and> fx = fx0 @ [Log (GuessEvaluated p sm rm reward)]))"
proof -
  have ni: "\<not> (suitGuess < 1 \<or> suitGuess > 4 \<or> rankGuess < 1 \<or> rankGuess > 13)"
  proof
    assume "suitGuess < 1 \<or> suitGuess > 4 \<or> rankGuess < 1 \<or> rankGuess > 13"
    then have "makeGuess e c s p suitGuess rankGuess = Inl InvalidGuess"
      by (simp add: makeGuess_def)
    with assms show False by simp
  qed
  then have r: "1 \<le> suitGuess \<and> suitGuess \<le> 4 \<and> 1 \<le> rankGuess \<and> rankGuess \<le> 13"
    by (simp only: de_Morgan_disj not_less)
  have a: "active (games s p)"
  proof (rule ccontr)
    assume "\<not> active (games s p)"
    then have "makeGuess e c s p suitGuess rankGuess = Inl NoActiveGame"
      unfolding makeGuess_def using ni by simp
    with assms show False by simp
  qed
  show ?thesis
    using assms a unfolding makeGuess_outcome [OF r a refl]
    by (auto split: if_splits option.splits)
qed

lemma withdraw_Inr_D:
  "withdraw e c s w r a = Inr (u, s', fx) \<Longrightarrow>
     w = owner s \<and> r \<noteq> 0 \<and> a \<le> balance s \<and>
     ((r = this_address e \<and> s' = s \<and> fx = []) \<or>
      (r \<noteq> this_address e \<and> c (s\<lparr>balance := balance s - a\<rparr>) = Some (s', fx)))"
  by (auto simp add: withdraw_def call_value_def split: if_splits option.splits)

subsection \<open>A sample run\<close>

text \<open>
  On a ledger that \<open>bob\<close> deployed and that holds \<open>GAME_FEE\<close>, \<open>alice\<close> starts a game;
  then \<open>bob\<close> withdraws the whole balance.
\<close>

lemma sample_start_funded:
  assumes "FULL_REWARD \<le> f + GAME_FEE"
  shows "startGame sample_env (initial_state bob f) alice GAME_FEE =
     Inr ((1002, 1259), playing_state (f + GAME_FEE),
          [FheAllow 1002 house, FheAllow 1259 house, FheAllow 1002 alice, FheAllow 1259 alice,
           Log (GameStarted alice 1002 1259)])"
proof -
  have a: "\<not> active (games (initial_state bob f) alice)"
    by (simp add: initial_state_simps zero_session_inactive)
  have h: "FULL_REWARD \<le> balance (initial_state bob f) + GAME_FEE"
    using assms by (simp add: initial_state_simps)
  have seed: "keccak256 sample_env (prevrandao sample_env) (timestamp sample_env) alice 0 = 1700659925"
    by (simp add: sample_env_def alice_def)
  have card: "suit_of_seed 1700659925 = 2" "rank_of_seed 1700659925 = 3"
    by (simp_all add: suit_of_seed_def rank_of_seed_def)
  have handles: "asEuint8 sample_env 0 2 = 1002" "asEuint8 sample_env (Suc 0) 3 = 1259"
    by (simp_all add: sample_env_def)
  show ?thesis
    by (simp add: startGame_success [OF refl a h] Let_def initial_state_simps seed card handles
          sample_env_simps)
       (simp add: initial_state_def playing_state_def sample_session_def zero_session_def)
qed

lemma sample_start:
  "startGame sample_env (initial_state bob GAME_FEE) alice GAME_FEE =
     Inr ((1002, 1259), playing_state FULL_REWARD,
          [FheAllow 1002 house, FheAllow 1259 house, FheAllow 1002 alice, FheAllow 1259 alice,
           Log (GameStarted alice 1002 1259)])"
proof -
  have "FULL_REWARD \<le> GAME_FEE + GAME_FEE" "GAME_FEE + GAME_FEE = FULL_REWARD"
    by (simp_all add: GAME_FEE_def FULL_REWARD_def)
  with sample_start_funded [of GAME_FEE] show ?thesis
    by simp
qed

lemma sample_drain:
  "withdraw sample_env plain_recipient (playing_state FULL_REWARD) bob bob FULL_REWARD =
     Inr ((), playing_state 0, [])"
proof -
  have "(playing_state FULL_REWARD)\<lparr>balance := 0\<rparr> = playing_state 0"
    by (simp add: playing_state_def)
  then show ?thesis
    by (simp add: withdraw_def call_value_def playing_state_alice accounts_distinct
          sample_env_simps recipient_simps)
qed

lemma code_of_simps:
  "code_of (Accepts []) = plain_recipient" "code_of Rejects = rejecting_recipient"
  by (auto simp add: plain_recipient_def rejecting_recipient_def)

lemma sample_run:
  "fst (run_calls [(sample_env, TxStartGame alice GAME_FEE, Accepts []),
                   (sample_env, TxWithdraw bob bob FULL_REWARD, Accepts [])]
          (initial_state bob GAME_FEE)) = playing_state 0"
  by (simp add: run_calls_def code_of_simps sample_start sample_drain outcome_def state_after_def
        del: code_of.simps)

text \<open>A recipient that starts a game for \<open>alice\<close> while it is paid.\<close>

lemma restarting_code:
  "code_of restarting s = Some (outcome s (startGame sample_env s alice GAME_FEE))"
  by (simp add: restarting_def outcome_def)

lemma restarting_starts:
  assumes "\<not> active (games s alice)" and "FULL_REWARD \<le> balance s + GAME_FEE"
  shows "\<exists>s' fx. code_of restarting s = Some (s', fx) \<and> active (games s' alice) \<and>
           (\<forall>q. q \<noteq> alice \<longrightarrow> games s' q = games s q) \<and> owner s' = owner s \<and>
           nonce s' = nonce s + 1 \<and> balance s' = balance s + GAME_FEE \<and>
           (\<exists>suitHandle rankHandle.
              fx = [FheAllow suitHandle house, FheAllow rankHandle house,
                    FheAllow suitHandle alice, FheAllow rankHandle alice,
                    Log (GameStarted alice suitHandle rankHandle)])"
  by (simp add: restarting_code startGame_success [OF refl assms] Let_def outcome_def
        state_after_def effects_of_def sample_env_simps)

subsection \<open>Reward policy\<close>

text \<open>
  C1, as amended. A call of \<open>makeGuess\<close> by a caller with an active session and a guess
  in range fixes one reward from the two match flags: \<open>FULL_REWARD\<close> when suit and rank
  both match, \<open>RANK_REWARD\<close> when only the rank matches, \<open>SUIT_REWARD\<close> when only the
  suit matches, and 0 when neither does; the four cases exclude each other and cover
  every call. The call pays that reward (the caller's code is given control on the
  ledger with the session cleared and the reward taken out of the balance) and emits
  \<open>GuessEvaluated\<close> with the two flags and the reward, after whatever the caller's code
  did, unless it reverts, which it does with \<open>InsufficientBankroll\<close> when the reward is
  positive and the balance is below it, and with \<open>TransferFailed\<close> when the caller's
  code rejects the transfer. A reverted call pays nothing and emits nothing.
\<close>

theorem makeGuess_reward_policy:
  assumes "1 \<le> suitGuess \<and> suitGuess \<le> 4 \<and> 1 \<le> rankGuess \<and> rankGuess \<le> 13"
    and "active (games s p)"
  shows "\<exists>reward.
      (suit (games s p) = suitGuess \<and> rank (games s p) = rankGuess \<longrightarrow> reward = FULL_REWARD) \<and>
      (suit (games s p) \<noteq> suitGuess \<and> rank (games s p) = rankGuess \<longrightarrow> reward = RANK_REWARD) \<and>
      (suit (games s p) = suitGuess \<and> rank (games s p) \<noteq> rankGuess \<longrightarrow> reward = SUIT_REWARD) \<and>
      (suit (games s p) \<noteq> suitGuess \<and> rank (games s p) \<noteq> rankGuess \<longrightarrow> reward = 0) \<and>
      makeGuess e c s p suitGuess rankGuess =
        (if 0 < reward \<and> balance s < reward then Inl InsufficientBankroll
         else if reward = 0 \<or> p = this_address e then
           Inr ((), s\<lparr>games := (games s)(p := zero_session)\<rparr>,
                [Log (GuessEvaluated p (suit (games s p) = suitGuess)
                                       (rank (games s p) = rankGuess) reward)])
         else case c (s\<lparr>games := (games s)(p := zero_session),
                         balance := balance s - reward\<rparr>) of
                None \<Rightarrow> Inl TransferFailed
              | Some (s3, fx) \<Rightarrow>
                  Inr ((), s3, fx @ [Log (GuessEvaluated p (suit (games s p) = suitGuess)
                                            (rank (games s p) = rankGuess) reward)]))"
proof -
  define reward where
    "reward = (if suit (games s p) = suitGuess \<and> rank (games s p) = rankGuess then FULL_REWARD
               else if rank (games s p) = rankGuess then RANK_REWARD
               else if suit (games s p) = suitGuess then SUIT_REWARD else 0)"
  have tiers:
    "(suit (games s p) = suitGuess \<and> rank (games s p) = rankGuess \<longrightarrow> reward = FULL_REWARD) \<and>
     (suit (games s p) \<noteq> suitGuess \<and> rank (games s p) = rankGuess \<longrightarrow> reward = RANK_REWARD) \<and>
     (suit (games s p) = suitGuess \<and> rank (games s p) \<noteq> rankGuess \<longrightarrow> reward = SUIT_REWARD) \<and>
     (suit (games s p) \<noteq> suitGuess \<and> rank (games s p) \<noteq> rankGuess \<longrightarrow> reward = 0)"
    by (simp add: reward_def)
  from tiers makeGuess_outcome [OF assms reward_def] show ?thesis
    by blast
qed

theorem makeGuess_reward_policy_witness:
  "active (games (playing_state FULL_REWARD) alice) \<and>
   makeGuess sample_env plain_recipient (playing_state FULL_REWARD) alice 2 3 =
     Inr ((), (playing_state FULL_REWARD)\<lparr>games := (games (playing_state FULL_REWARD))(alice := zero_session),
                                          balance := 0\<rparr>,
          [Log (GuessEvaluated alice True True FULL_REWARD)]) \<and>
   makeGuess sample_env rejecting_recipient (playing_state FULL_REWARD) alice 2 3 = Inl TransferFailed"
proof -
  let ?s = "playing_state FULL_REWARD"
  have r: "(1::uint8) \<le> 2 \<and> (2::uint8) \<le> 4 \<and> (1::uint8) \<le> 3 \<and> (3::uint8) \<le> 13" by simp
  have a: "active (games ?s alice)"
    by (simp add: playing_state_alice sample_session_simps)
  have pos: "0 < FULL_REWARD"
    by (simp add: FULL_REWARD_def)
  have m: "makeGuess sample_env c ?s alice 2 3 =
        (case c (?s\<lparr>games := (games ?s)(alice := zero_session), balance := 0\<rparr>) of
           None \<Rightarrow> Inl TransferFailed
         | Some (s3, fx) \<Rightarrow> Inr ((), s3, fx @ [Log (GuessEvaluated alice True True FULL_REWARD)]))" for c
  proof -
    from makeGuess_reward_policy [OF r a, of sample_env c]
    obtain reward where
      f: "reward = FULL_REWARD" and
      m: "makeGuess sample_env c ?s alice 2 3 =
        (if 0 < reward \<and> balance ?s < reward then Inl InsufficientBankroll
         else if reward = 0 \<or> alice = this_address sample_env then
           Inr ((), ?s\<lparr>games := (games ?s)(alice := zero_session)\<rparr>,
                [Log (GuessEvaluated alice (suit (games ?s alice) = 2)
                                       (rank (games ?s alice) = 3) reward)])
         else case c (?s\<lparr>games := (games ?s)(alice := zero_session),
                         balance := balance ?s - reward\<rparr>) of
                None \<Rightarrow> Inl TransferFailed
              | Some (s3, fx) \<Rightarrow>
                  Inr ((), s3, fx @ [Log (GuessEvaluated alice (suit (games ?s alice) = 2)
                                            (rank (games ?s alice) = 3) reward)]))"
      by (auto simp add: playing_state_alice sample_session_simps)
    show ?thesis
      using pos unfolding m f
      by (simp add: playing_state_alice sample_session_simps sample_env_simps accounts_distinct
            split: option.splits)
  qed
  show ?thesis
    using a by (simp add: m recipient_simps)
qed

text \<open>
  The claim as first stated, for every call, fails where the house cannot pay. After
  the sample run the session holds suit 2 and rank 3 and the balance is 0; the guess
  matches both, and the call reverts instead of paying \<open>FULL_REWARD\<close>: no event is
  emitted and the session stays active.
\<close>

theorem makeGuess_unpaid_match:
  "fst (run_calls [(sample_env, TxStartGame alice GAME_FEE, Accepts []),
                   (sample_env, TxWithdraw bob bob FULL_REWARD, Accepts [])]
          (initial_state bob GAME_FEE)) = playing_state 0 \<and>
   active (games (playing_state 0) alice) \<and>
   suit (games (playing_state 0) alice) = 2 \<and> rank (games (playing_state 0) alice) = 3 \<and>
   makeGuess sample_env plain_recipient (playing_state 0) alice 2 3 = Inl InsufficientBankroll \<and>
   effects_of (makeGuess sample_env plain_recipient (playing_state 0) alice 2 3) = [] \<and>
   state_after (playing_state 0) (makeGuess sample_env plain_recipient (playing_state 0) alice 2 3) =
     playing_state 0"
proof -
  have m: "makeGuess sample_env plain_recipient (playing_state 0) alice 2 3 = Inl InsufficientBankroll"
    by (simp add: makeGuess_def playing_state_alice sample_session_simps Let_def FULL_REWARD_def)
  show ?thesis
    by (simp only: sample_run m)
       (simp add: playing_state_alice sample_session_simps effects_of_def state_after_def)
qed

subsection \<open>Bankroll check of startGame\<close>

text \<open>
  C2, as amended. For a call of \<open>startGame\<close> with the correct fee by a caller without
  an active session, the balance that the bankroll check reads already holds the fee
  of this call: the call fails with \<open>InsufficientBankroll\<close> whenever the balance before
  the call plus \<open>GAME_FEE\<close> is less than \<open>FULL_REWARD\<close>, and succeeds, creating an
  active session and keeping the fee, whenever it is at least \<open>FULL_REWARD\<close>.
\<close>

theorem startGame_bankroll:
  assumes "\<not> active (games s p)"
  shows "(balance s + GAME_FEE < FULL_REWARD \<longrightarrow>
            startGame e s p GAME_FEE = Inl InsufficientBankroll \<and>
            state_after s (startGame e s p GAME_FEE) = s) \<and>
         (FULL_REWARD \<le> balance s + GAME_FEE \<longrightarrow>
            (\<exists>h s' fx. startGame e s p GAME_FEE = Inr (h, s', fx) \<and>
               active (games s' p) \<and> balance s' = balance s + GAME_FEE))"
proof (intro conjI impI)
  assume low: "balance s + GAME_FEE < FULL_REWARD"
  then show "startGame e s p GAME_FEE = Inl InsufficientBankroll"
    using assms by (simp add: startGame_def Let_def)
  then show "state_after s (startGame e s p GAME_FEE) = s"
    by (simp add: state_after_def)
next
  assume high: "FULL_REWARD \<le> balance s + GAME_FEE"
  show "\<exists>h s' fx. startGame e s p GAME_FEE = Inr (h, s', fx) \<and>
               active (games s' p) \<and> balance s' = balance s + GAME_FEE"
    by (simp add: startGame_success [OF refl assms high] Let_def)
qed

theorem startGame_bankroll_witness:
  "\<not> active (games (initial_state bob 0) alice) \<and>
   startGame sample_env (initial_state bob 0) alice GAME_FEE = Inl InsufficientBankroll \<and>
   (\<exists>h s' fx. startGame sample_env (initial_state bob GAME_FEE) alice GAME_FEE = Inr (h, s', fx) \<and>
       active (games s' alice) \<and> balance s' = FULL_REWARD)"
proof -
  have a: "\<not> active (games (initial_state bob f) alice)" for f
    by (simp add: initial_state_simps zero_session_inactive)
  have l: "0 + GAME_FEE < FULL_REWARD" and h: "FULL_REWARD \<le> GAME_FEE + GAME_FEE"
    and t: "GAME_FEE + GAME_FEE = FULL_REWARD"
    by (simp_all add: GAME_FEE_def FULL_REWARD_def)
  show ?thesis
    using startGame_bankroll [OF a [of 0], of sample_env]
          startGame_bankroll [OF a [of GAME_FEE], of sample_env] a [of 0] l h
    by (simp add: initial_state_simps t)
qed

text \<open>
  With the balance read before the call the claim fails: a ledger that holds
  \<open>GAME_FEE\<close>, less than \<open>FULL_REWARD\<close>, accepts the start, because the fee brings the
  balance up to \<open>FULL_REWARD\<close>.
\<close>

theorem startGame_fee_counts_as_bankroll:
  "fst (run_calls [(sample_env, TxReceive GAME_FEE, Accepts [])] (initial_state bob 0)) =
     initial_state bob GAME_FEE \<and>
   \<not> active (games (initial_state bob GAME_FEE) alice) \<and>
   houseBalance (initial_state bob GAME_FEE) < FULL_REWARD \<and>
   startGame sample_env (initial_state bob GAME_FEE) alice GAME_FEE \<noteq> Inl InsufficientBankroll \<and>
   active (games (state_after (initial_state bob GAME_FEE)
             (startGame sample_env (initial_state bob GAME_FEE) alice GAME_FEE)) alice)"
proof -
  have a: "\<not> active (games (initial_state bob GAME_FEE) alice)"
    by (simp add: initial_state_simps zero_session_inactive)
  have h: "FULL_REWARD \<le> balance (initial_state bob GAME_FEE) + GAME_FEE"
    by (simp add: initial_state_simps GAME_FEE_def FULL_REWARD_def)
  have l: "houseBalance (initial_state bob GAME_FEE) < FULL_REWARD"
    by (simp add: houseBalance_def initial_state_simps GAME_FEE_def FULL_REWARD_def)
  have r: "fst (run_calls [(sample_env, TxReceive GAME_FEE, Accepts [])] (initial_state bob 0)) =
     initial_state bob GAME_FEE"
    by (simp add: run_calls_def outcome_def receive_def state_after_def initial_state_def)
  show ?thesis
    using a l r by (simp add: startGame_success [OF refl a h] Let_def state_after_def)
qed

subsection \<open>Guards of makeGuess\<close>

text \<open>
  C5. A call \<open>makeGuess(suitGuess, rankGuess)\<close> whose suit guess is outside [1,4] or
  whose rank guess is outside [1,13] fails with \<open>InvalidGuess\<close> and leaves the state as
  it was, whether or not the caller has an active session; a call with a guess in range
  by a caller without an active session fails with \<open>NoActiveGame\<close> and leaves the state
  as it was.
\<close>

theorem makeGuess_guard_order:
  "(suitGuess < 1 \<or> suitGuess > 4 \<or> rankGuess < 1 \<or> rankGuess > 13 \<longrightarrow>
      makeGuess e c s p suitGuess rankGuess = Inl InvalidGuess \<and>
      state_after s (makeGuess e c s p suitGuess rankGuess) = s) \<and>
   (1 \<le> suitGuess \<and> suitGuess \<le> 4 \<and> 1 \<le> rankGuess \<and> rankGuess \<le> 13 \<and>
    \<not> active (games s p) \<longrightarrow>
      makeGuess e c s p suitGuess rankGuess = Inl NoActiveGame \<and>
      state_after s (makeGuess e c s p suitGuess rankGuess) = s)"
proof (intro conjI impI)
  assume "suitGuess < 1 \<or> suitGuess > 4 \<or> rankGuess < 1 \<or> rankGuess > 13"
  then show "makeGuess e c s p suitGuess rankGuess = Inl InvalidGuess"
    by (simp add: makeGuess_def)
  then show "state_after s (makeGuess e c s p suitGuess rankGuess) = s"
    by (simp add: state_after_def)
next
  assume h: "1 \<le> suitGuess \<and> suitGuess \<le> 4 \<and> 1 \<le> rankGuess \<and> rankGuess \<le> 13 \<and>
             \<not> active (games s p)"
  then have "\<not> (suitGuess < 1 \<or> suitGuess > 4 \<or> rankGuess < 1 \<or> rankGuess > 13)"
    by (intro in_range_not_invalid) simp
  then show "makeGuess e c s p suitGuess rankGuess = Inl NoActiveGame"
    unfolding makeGuess_def using h by simp
  then show "state_after s (makeGuess e c s p suitGuess rankGuess) = s"
    by (simp add: state_after_def)
qed

theorem makeGuess_guard_order_witness:
  "\<not> active (games (playing_state 0) bob) \<and>
   makeGuess sample_env plain_recipient (playing_state 0) bob 0 5 = Inl InvalidGuess \<and>
   makeGuess sample_env plain_recipient (playing_state 0) bob 2 14 = Inl InvalidGuess \<and>
   makeGuess sample_env plain_recipient (playing_state 0) bob 2 5 = Inl NoActiveGame \<and>
   state_after (playing_state 0) (makeGuess sample_env plain_recipient (playing_state 0) bob 2 5) = playing_state 0"
proof -
  have a: "\<not> active (games (playing_state 0) bob)"
    by (simp add: playing_state_bob zero_session_inactive)
  show ?thesis
    using a makeGuess_guard_order [of 0 5 sample_env plain_recipient "playing_state 0" bob]
        makeGuess_guard_order [of 2 14 sample_env plain_recipient "playing_state 0" bob]
        makeGuess_guard_order [of 2 5 sample_env plain_recipient "playing_state 0" bob]
    by (simp add: state_after_def)
qed

subsection \<open>A guess that matches nothing\<close>

text \<open>
  C9. A call of \<open>makeGuess\<close> with an active session and a guess in range that matches
  neither the suit nor the rank succeeds whatever the balance is (also when it is 0)
  and whatever the caller's code would answer to a transfer: no bankroll check and no
  transfer take place. The session is cleared, the balance is unchanged, and the one
  event is \<open>GuessEvaluated\<close> with both flags false and reward 0.
\<close>

theorem makeGuess_no_match:
  assumes "1 \<le> suitGuess \<and> suitGuess \<le> 4 \<and> 1 \<le> rankGuess \<and> rankGuess \<le> 13"
    and "active (games s p)"
    and "suit (games s p) \<noteq> suitGuess" and "rank (games s p) \<noteq> rankGuess"
  shows "makeGuess e c s p suitGuess rankGuess =
           Inr ((), s\<lparr>games := (games s)(p := zero_session)\<rparr>,
                [Log (GuessEvaluated p False False 0)]) \<and>
         balance (state_after s (makeGuess e c s p suitGuess rankGuess)) = balance s \<and>
         games (state_after s (makeGuess e c s p suitGuess rankGuess)) p = zero_session \<and>
         getActiveGame (state_after s (makeGuess e c s p suitGuess rankGuess)) p = (False, 0, 0)"
proof -
  have r: "makeGuess e c s p suitGuess rankGuess =
           Inr ((), s\<lparr>games := (games s)(p := zero_session)\<rparr>,
                [Log (GuessEvaluated p False False 0)])"
    using assms(3,4) by (simp add: makeGuess_in_range [OF assms(1,2)] Let_def)
  show ?thesis
    by (simp add: r state_after_def getActiveGame_def zero_session_def)
qed

theorem makeGuess_no_match_witness:
  "balance (playing_state 0) = 0 \<and> active (games (playing_state 0) alice) \<and>
   makeGuess sample_env rejecting_recipient (playing_state 0) alice 3 6 =
     Inr ((), (playing_state 0)\<lparr>games := (games (playing_state 0))(alice := zero_session)\<rparr>,
          [Log (GuessEvaluated alice False False 0)]) \<and>
   balance (state_after (playing_state 0) (makeGuess sample_env rejecting_recipient (playing_state 0) alice 3 6)) = 0"
proof -
  have r: "(1::uint8) \<le> 3 \<and> (3::uint8) \<le> 4 \<and> (1::uint8) \<le> 6 \<and> (6::uint8) \<le> 13" by simp
  have a: "active (games (playing_state 0) alice)"
    and b: "suit (games (playing_state 0) alice) \<noteq> 3"
    and c: "rank (games (playing_state 0) alice) \<noteq> 6"
    by (simp_all add: playing_state_alice sample_session_simps)
  show ?thesis
    using makeGuess_no_match [OF r a b c, of sample_env rejecting_recipient] a
    by (simp add: playing_state_alice state_after_def)
qed

subsection \<open>One session per player\<close>

lemma count_append:
  "opened p (fx @ fx') = opened p fx + opened p fx'"
  "closed p (fx @ fx') = closed p fx + closed p fx'"
  by (simp_all add: opened_def closed_def)

lemma count_simps:
  "opened p [] = 0" "closed p [] = 0"
  "opened p [Log (GuessEvaluated q sm rm reward)] = 0"
  "closed p [Log (GuessEvaluated q sm rm reward)] = (if q = p then 1 else 0)"
  "opened p [Log (OwnershipTransferred a b)] = 0"
  "closed p [Log (OwnershipTransferred a b)] = 0"
  by (simp_all add: opened_def closed_def)

lemma startGame_count:
  assumes "startGame e s q v = Inr (h, s', fx)"
  shows "opened p fx = (if q = p then 1 else 0) \<and> closed p fx = 0"
proof -
  from startGame_Inr_D [OF assms]
  have pre: "v = GAME_FEE" "\<not> active (games s q)" "FULL_REWARD \<le> balance s + v"
    by simp_all
  show ?thesis
    using assms unfolding startGame_success [OF pre]
    by (auto simp add: Let_def opened_def closed_def)
qed

lemma exec_session_count:
  assumes quiet: "\<And>s1 s2 fx0. c s1 = Some (s2, fx0) \<Longrightarrow>
            opened p fx0 + (if active (games s1 p) then 1 else 0) =
            closed p fx0 + (if active (games s2 p) then 1 else 0)"
    and ex: "exec e t c s = (s', fx)"
  shows "opened p fx + (if active (games s p) then 1 else 0) =
         closed p fx + (if active (games s' p) then 1 else 0)"
proof (cases t)
  case (TxStartGame q v)
  show ?thesis
  proof (cases "startGame e s q v")
    case (Inl err)
    then show ?thesis
      using ex TxStartGame by (auto simp add: outcome_def state_after_def effects_of_def count_simps)
  next
    case (Inr r)
    obtain h s1 fx1 where r: "r = (h, s1, fx1)" by (cases r)
    from startGame_Inr_D [OF Inr [unfolded r]]
    have d: "\<not> active (games s q)" "active (games s1 q)" "\<forall>x. x \<noteq> q \<longrightarrow> games s1 x = games s x"
      by simp_all
    have "s' = s1" "fx = fx1"
      using ex TxStartGame Inr r by (simp_all add: outcome_def state_after_def effects_of_def)
    then show ?thesis
      using d startGame_count [OF Inr [unfolded r], of p] by auto
  qed
next
  case (TxMakeGuess q sg rg)
  show ?thesis
  proof (cases "makeGuess e c s q sg rg")
    case (Inl err)
    then show ?thesis
      using ex TxMakeGuess by (auto simp add: outcome_def state_after_def effects_of_def count_simps)
  next
    case (Inr r)
    obtain u s1 fx1 where r: "r = (u, s1, fx1)" by (cases r)
    have eq: "s' = s1" "fx = fx1"
      using ex TxMakeGuess Inr r by (simp_all add: outcome_def state_after_def effects_of_def)
    from makeGuess_Inr_D [OF Inr [unfolded r]]
    obtain sm rm reward where act: "active (games s q)"
      and alt: "(s1 = s\<lparr>games := (games s)(q := zero_session)\<rparr> \<and>
                 fx1 = [Log (GuessEvaluated q sm rm reward)]) \<or>
                (\<exists>fx0. c (s\<lparr>games := (games s)(q := zero_session), balance := balance s - reward\<rparr>) =
                   Some (s1, fx0) \<and> fx1 = fx0 @ [Log (GuessEvaluated q sm rm reward)])"
      by blast
    from alt show ?thesis
    proof
      assume "s1 = s\<lparr>games := (games s)(q := zero_session)\<rparr> \<and>
              fx1 = [Log (GuessEvaluated q sm rm reward)]"
      then show ?thesis
        using act eq by (auto simp add: count_simps zero_session_inactive)
    next
      assume "\<exists>fx0. c (s\<lparr>games := (games s)(q := zero_session), balance := balance s - reward\<rparr>) =
                   Some (s1, fx0) \<and> fx1 = fx0 @ [Log (GuessEvaluated q sm rm reward)]"
      then obtain fx0 where
        c: "c (s\<lparr>games := (games s)(q := zero_session), balance := balance s - reward\<rparr>) = Some (s1, fx0)"
        and f: "fx1 = fx0 @ [Log (GuessEvaluated q sm rm reward)]"
        by blast
      from quiet [OF c] show ?thesis
        using act eq f by (auto simp add: count_simps count_append zero_session_inactive split: if_splits)
    qed
  qed
next
  case (TxWithdraw w r a)
  show ?thesis
  proof (cases "withdraw e c s w r a")
    case (Inl err)
    then show ?thesis
      using ex TxWithdraw by (auto simp add: outcome_def state_after_def effects_of_def count_simps)
  next
    case (Inr x)
    obtain u s1 fx1 where x: "x = (u, s1, fx1)" by (cases x)
    have eq: "s' = s1" "fx = fx1"
      using ex TxWithdraw Inr x by (simp_all add: outcome_def state_after_def effects_of_def)
    from withdraw_Inr_D [OF Inr [unfolded x]]
    have "(r = this_address e \<and> s1 = s \<and> fx1 = []) \<or>
          (r \<noteq> this_address e \<and> c (s\<lparr>balance := balance s - a\<rparr>) = Some (s1, fx1))"
      by simp
    then show ?thesis
    proof
      assume "r = this_address e \<and> s1 = s \<and> fx1 = []"
      then show ?thesis using eq by (simp add: count_simps)
    next
      assume "r \<noteq> this_address e \<and> c (s\<lparr>balance := balance s - a\<rparr>) = Some (s1, fx1)"
      then have "c (s\<lparr>balance := balance s - a\<rparr>) = Some (s1, fx1)" by simp
      from quiet [OF this] show ?thesis using eq by simp
    qed
  qed
next
  case (TxTransferOwnership w n)
  then show ?thesis
    using ex by (auto simp add: outcome_def state_after_def effects_of_def transferOwnership_def
        count_simps Let_def split: if_splits)
next
  case (TxReceive v)
  then show ?thesis
    using ex by (auto simp add: outcome_def state_after_def effects_of_def receive_def count_simps)
qed

lemma run_session_count:
  assumes quiet: "\<And>e t c s1 s2 fx0. (e, t, c) \<in> set calls \<Longrightarrow> c s1 = Some (s2, fx0) \<Longrightarrow>
            opened p fx0 + (if active (games s1 p) then 1 else 0) =
            closed p fx0 + (if active (games s2 p) then 1 else 0)"
    and "run calls s = (s', fx)"
  shows "opened p fx + (if active (games s p) then 1 else 0) =
         closed p fx + (if active (games s' p) then 1 else 0)"
  using assms
proof (induction calls arbitrary: s s' fx)
  case Nil
  then show ?case by (simp add: count_simps)
next
  case (Cons call calls)
  obtain e t c where call: "call = (e, t, c)" by (cases call)
  obtain s1 fx1 where one: "exec e t c s = (s1, fx1)" by (cases "exec e t c s")
  obtain s2 fx2 where rest: "run calls s1 = (s2, fx2)" by (cases "run calls s1")
  have res: "s' = s2" "fx = fx1 @ fx2"
    using Cons.prems(2) by (simp_all add: call one rest)
  have first: "opened p fx1 + (if active (games s p) then 1 else 0) =
               closed p fx1 + (if active (games s1 p) then 1 else 0)"
  proof (rule exec_session_count [OF _ one])
    fix x1 x2 fx0 assume "c x1 = Some (x2, fx0)"
    then show "opened p fx0 + (if active (games x1 p) then 1 else 0) =
               closed p fx0 + (if active (games x2 p) then 1 else 0)"
      by (rule Cons.prems(1) [of e t c, unfolded call, simplified])
  qed
  have others: "opened p fx2 + (if active (games s1 p) then 1 else 0) =
                closed p fx2 + (if active (games s2 p) then 1 else 0)"
  proof (rule Cons.IH [OF _ rest])
    fix e' t' c' x1 x2 fx0 assume "(e', t', c') \<in> set calls" "c' x1 = Some (x2, fx0)"
    then show "opened p fx0 + (if active (games x1 p) then 1 else 0) =
               closed p fx0 + (if active (games x2 p) then 1 else 0)"
      using Cons.prems(1) [of e' t' c' x1 x2 fx0] by simp
  qed
  from first others show ?case
    by (simp add: res count_append)
qed

lemma code_of_session_count:
  "code_of r s1 = Some (s2, fx) \<Longrightarrow>
     opened p fx + (if active (games s1 p) then 1 else 0) =
     closed p fx + (if active (games s2 p) then 1 else 0)"
proof (induction r arbitrary: s1 s2 fx)
  case Rejects
  then show ?case by simp
next
  case (Accepts calls)
  let ?calls = "map (map_prod id (map_prod id code_of)) calls"
  from Accepts.prems have r: "run ?calls s1 = (s2, fx)" by simp
  show ?case
  proof (rule run_session_count [OF _ r])
    fix e t c x1 x2 fx0 assume m: "(e, t, c) \<in> set ?calls" and c: "c x1 = Some (x2, fx0)"
    from m obtain r' where r': "(e, t, r') \<in> set calls" "c = code_of r'"
      by auto
    show "opened p fx0 + (if active (games x1 p) then 1 else 0) =
          closed p fx0 + (if active (games x2 p) then 1 else 0)"
      using Accepts.IH [of "(e, t, r')" "(t, r')" r' x1 x2 fx0] r' c by simp
  qed
qed

lemma run_calls_session_count:
  "opened p (snd (run_calls calls s)) + (if active (games s p) then 1 else 0) =
   closed p (snd (run_calls calls s)) + (if active (games (fst (run_calls calls s)) p) then 1 else 0)"
proof -
  let ?calls = "map (map_prod id (map_prod id code_of)) calls"
  obtain s' fx where r: "run ?calls s = (s', fx)" by (cases "run ?calls s")
  have "opened p fx + (if active (games s p) then 1 else 0) =
        closed p fx + (if active (games s' p) then 1 else 0)"
  proof (rule run_session_count [OF _ r])
    fix e t c x1 x2 fx0 assume m: "(e, t, c) \<in> set ?calls" and c: "c x1 = Some (x2, fx0)"
    from m obtain r' where "c = code_of r'" by auto
    with c show "opened p fx0 + (if active (games x1 p) then 1 else 0) =
          closed p fx0 + (if active (games x2 p) then 1 else 0)"
      by (simp add: code_of_session_count)
  qed
  then show ?thesis
    by (simp add: run_calls_def r)
qed

lemma startGame_opens:
  "opened p (effects_of (startGame e s q v)) = (if q = p \<and> \<not> isl (startGame e s q v) then 1 else 0)"
proof (cases "startGame e s q v")
  case (Inl err)
  then show ?thesis by (simp add: effects_of_def count_simps)
next
  case (Inr r)
  obtain h s' fx where r: "r = (h, s', fx)" by (cases r)
  from startGame_count [OF Inr [unfolded r], of p] show ?thesis
    by (simp add: Inr r effects_of_def)
qed

lemma makeGuess_closes:
  assumes "makes_no_call c"
  shows "closed p (effects_of (makeGuess e c s q sg rg)) =
     (if q = p \<and> \<not> isl (makeGuess e c s q sg rg) then 1 else 0)"
proof (cases "makeGuess e c s q sg rg")
  case (Inl err)
  then show ?thesis by (simp add: effects_of_def count_simps)
next
  case (Inr r)
  obtain u s' fx where r: "r = (u, s', fx)" by (cases r)
  from makeGuess_Inr_D [OF Inr [unfolded r]]
  obtain sm rm reward where
    alt: "(s' = s\<lparr>games := (games s)(q := zero_session)\<rparr> \<and>
           fx = [Log (GuessEvaluated q sm rm reward)]) \<or>
          (\<exists>fx0. c (s\<lparr>games := (games s)(q := zero_session), balance := balance s - reward\<rparr>) =
             Some (s', fx0) \<and> fx = fx0 @ [Log (GuessEvaluated q sm rm reward)])"
    by blast
  have "fx = [Log (GuessEvaluated q sm rm reward)]"
    using alt makes_no_call_D [OF assms] by auto
  then show ?thesis
    by (simp add: Inr r effects_of_def count_simps)
qed

text \<open>
  C3, as amended. Along every run of calls from deployment, calls made by the code of
  a recipient during a transfer included, the sessions a player has opened exceed the
  sessions the same player has closed by one exactly when the player's session is
  active, and by nothing otherwise: at most one session per player is active. (Every
  successful \<open>startGame\<close> counts as one session opened, every successful \<open>makeGuess\<close>
  as one closed.) A call of \<open>startGame\<close> by a caller whose session is active fails and
  leaves the state as it was: with \<open>ActiveGameExists\<close> when the fee is \<open>GAME_FEE\<close>, and
  with \<open>InvalidFee\<close>, which is checked first, when it is not.
\<close>

theorem one_session_per_player:
  "opened p (snd (run_calls calls (initial_state d f))) =
     closed p (snd (run_calls calls (initial_state d f))) +
     (if active (games (fst (run_calls calls (initial_state d f))) p) then 1 else 0) \<and>
   opened p (effects_of (startGame e s q msg_value)) =
     (if q = p \<and> \<not> isl (startGame e s q msg_value) then 1 else 0) \<and>
   (makes_no_call c \<longrightarrow>
      closed p (effects_of (makeGuess e c s q suitGuess rankGuess)) =
        (if q = p \<and> \<not> isl (makeGuess e c s q suitGuess rankGuess) then 1 else 0)) \<and>
   (active (games s p) \<longrightarrow>
      startGame e s p msg_value =
        Inl (if msg_value = GAME_FEE then ActiveGameExists else InvalidFee) \<and>
      state_after s (startGame e s p msg_value) = s)"
proof (intro conjI impI)
  show "opened p (snd (run_calls calls (initial_state d f))) =
     closed p (snd (run_calls calls (initial_state d f))) +
     (if active (games (fst (run_calls calls (initial_state d f))) p) then 1 else 0)"
    using run_calls_session_count [of p calls "initial_state d f"]
    by (simp add: initial_state_simps zero_session_inactive)
next
  show "opened p (effects_of (startGame e s q msg_value)) =
     (if q = p \<and> \<not> isl (startGame e s q msg_value) then 1 else 0)"
    by (rule startGame_opens)
next
  assume "makes_no_call c"
  then show "closed p (effects_of (makeGuess e c s q suitGuess rankGuess)) =
     (if q = p \<and> \<not> isl (makeGuess e c s q suitGuess rankGuess) then 1 else 0)"
    by (rule makeGuess_closes)
next
  assume "active (games s p)"
  then show "startGame e s p msg_value =
        Inl (if msg_value = GAME_FEE then ActiveGameExists else InvalidFee)"
    by (simp add: startGame_def Let_def)
  then show "state_after s (startGame e s p msg_value) = s"
    by (simp add: state_after_def)
qed

theorem one_session_per_player_witness:
  "active (games (playing_state FULL_REWARD) alice) \<and>
   startGame sample_env (playing_state FULL_REWARD) alice GAME_FEE = Inl ActiveGameExists \<and>
   state_after (playing_state FULL_REWARD)
     (startGame sample_env (playing_state FULL_REWARD) alice GAME_FEE) = playing_state FULL_REWARD \<and>
   fst (run_calls [(sample_env, TxStartGame alice GAME_FEE, Accepts []),
                   (sample_env, TxStartGame alice GAME_FEE, Accepts [])]
          (initial_state bob GAME_FEE)) = playing_state FULL_REWARD \<and>
   opened alice (snd (run_calls [(sample_env, TxStartGame alice GAME_FEE, Accepts []),
                                 (sample_env, TxStartGame alice GAME_FEE, Accepts [])]
                        (initial_state bob GAME_FEE))) = 1 \<and>
   closed alice (snd (run_calls [(sample_env, TxStartGame alice GAME_FEE, Accepts []),
                                 (sample_env, TxStartGame alice GAME_FEE, Accepts [])]
                        (initial_state bob GAME_FEE))) = 0 \<and>
   makes_no_call plain_recipient \<and>
   \<not> isl (makeGuess sample_env plain_recipient (playing_state FULL_REWARD) alice 2 3) \<and>
   closed alice (effects_of (makeGuess sample_env plain_recipient (playing_state FULL_REWARD) alice 2 3)) = 1"
proof -
  let ?calls = "[(sample_env, TxStartGame alice GAME_FEE, Accepts []),
                 (sample_env, TxStartGame alice GAME_FEE, Accepts [])]"
  have a: "active (games (playing_state FULL_REWARD) alice)"
    by (simp add: playing_state_alice sample_session_simps)
  note t = one_session_per_player [of alice ?calls bob GAME_FEE sample_env "playing_state FULL_REWARD"
      alice GAME_FEE plain_recipient 2 3]
  from t recipient_simps(3)
  have g: "closed alice (effects_of (makeGuess sample_env plain_recipient (playing_state FULL_REWARD) alice 2 3)) =
     (if alice = alice \<and> \<not> isl (makeGuess sample_env plain_recipient (playing_state FULL_REWARD) alice 2 3)
      then 1 else 0)"
    by blast
  have m: "\<not> isl (makeGuess sample_env plain_recipient (playing_state FULL_REWARD) alice 2 3)"
    by (simp add: makeGuess_def call_value_def Let_def playing_state_alice sample_session_simps
          recipient_simps FULL_REWARD_def)
  have s: "startGame sample_env (playing_state FULL_REWARD) alice GAME_FEE = Inl ActiveGameExists"
    using t a by simp
  have r: "run_calls ?calls (initial_state bob GAME_FEE) =
     (playing_state FULL_REWARD,
      [FheAllow 1002 house, FheAllow 1259 house, FheAllow 1002 alice, FheAllow 1259 alice,
       Log (GameStarted alice 1002 1259)])"
    by (simp add: run_calls_def sample_start s outcome_def state_after_def effects_of_def)
  have c: "closed alice (snd (run_calls ?calls (initial_state bob GAME_FEE))) = 0"
    by (simp add: r closed_def)
  from t have o: "opened alice (snd (run_calls ?calls (initial_state bob GAME_FEE))) =
     closed alice (snd (run_calls ?calls (initial_state bob GAME_FEE))) +
     (if active (games (fst (run_calls ?calls (initial_state bob GAME_FEE))) alice) then 1 else 0)"
    by (rule conjunct1)
  have o1: "opened alice (snd (run_calls ?calls (initial_state bob GAME_FEE))) = 1"
    unfolding o c using a by (simp add: r)
  show ?thesis
    using a s c o1 g m by (simp add: r state_after_def recipient_simps)
qed

text \<open>
  The claim as first stated, that such a call always fails with \<open>ActiveGameExists\<close>,
  fails for a call that carries the wrong fee.
\<close>

theorem startGame_wrong_fee_while_active:
  "fst (run_calls [(sample_env, TxStartGame alice GAME_FEE, Accepts [])] (initial_state bob GAME_FEE)) =
     playing_state FULL_REWARD \<and>
   active (games (playing_state FULL_REWARD) alice) \<and>
   startGame sample_env (playing_state FULL_REWARD) alice 0 = Inl InvalidFee \<and>
   startGame sample_env (playing_state FULL_REWARD) alice 0 \<noteq> Inl ActiveGameExists"
proof -
  have "startGame sample_env (playing_state FULL_REWARD) alice 0 = Inl InvalidFee"
    by (simp add: startGame_def Let_def GAME_FEE_def)
  then show ?thesis
    by (simp add: playing_state_alice sample_session_simps run_calls_def sample_start outcome_def
          state_after_def)
qed

subsection \<open>The session is cleared before the reward is sent\<close>

lemma makeGuess_callee_on_cleared:
  assumes "\<forall>s'. games s' p = zero_session \<longrightarrow> c' s' = c s'"
  shows "makeGuess e c' s p suitGuess rankGuess = makeGuess e c s p suitGuess rankGuess"
proof -
  have "call_value e c' (s\<lparr>games := (games s)(p := zero_session)\<rparr>) p v =
        call_value e c (s\<lparr>games := (games s)(p := zero_session)\<rparr>) p v" for v
    using assms by (simp add: call_value_def)
  then show ?thesis
    by (simp add: makeGuess_def Let_def)
qed

lemma reentrant_guess_is_void:
  assumes "games s' p = zero_session"
  shows "code_of (Accepts ((e', TxMakeGuess p suitGuess' rankGuess', r') # calls)) s' =
         code_of (Accepts calls) s'"
proof -
  have "\<not> active (games s' p)"
    using assms by (simp add: zero_session_inactive)
  then have "makeGuess e' (code_of r') s' p suitGuess' rankGuess' = Inl InvalidGuess \<or>
             makeGuess e' (code_of r') s' p suitGuess' rankGuess' = Inl NoActiveGame"
    by (simp add: makeGuess_def)
  then have "exec e' (TxMakeGuess p suitGuess' rankGuess') (code_of r') s' = (s', [])"
    by (auto simp add: outcome_def state_after_def effects_of_def)
  then show ?thesis
    by simp
qed

text \<open>
  C4, as amended. Whenever \<open>makeGuess\<close> transfers a reward, the code of the recipient
  (the caller) runs on a ledger in which the caller's session is already cleared, every
  field reset: replacing that code by any other code that behaves the same on ledgers
  where this session is cleared never changes what \<open>makeGuess\<close> does, and a \<open>makeGuess\<close>
  that the caller makes again as soon as it is paid does nothing. After a successful
  \<open>makeGuess\<close> during which no game was started for the caller (its effects hold no
  \<open>GameStarted\<close> event of the caller), whatever the outcome of the guess, the caller has
  no active session. The session guessed on never outlives the call; but the contract
  has no re-entrancy guard, and the caller's code can start a new game while it is
  paid.
\<close>

theorem makeGuess_clears_before_transfer:
  "((\<forall>s'. games s' p = zero_session \<longrightarrow> c' s' = c s') \<longrightarrow>
      makeGuess e c' s p suitGuess rankGuess = makeGuess e c s p suitGuess rankGuess) \<and>
   makeGuess e (code_of (Accepts ((e', TxMakeGuess p suitGuess' rankGuess', r') # calls))) s p
       suitGuess rankGuess =
     makeGuess e (code_of (Accepts calls)) s p suitGuess rankGuess \<and>
   (makeGuess e (code_of r) s p suitGuess rankGuess = Inr (u, s', fx) \<and> opened p fx = 0 \<longrightarrow>
      \<not> active (games s' p) \<and> getActiveGame s' p = (False, 0, 0)) \<and>
   (makeGuess e c s p suitGuess rankGuess = Inr (u, s', fx) \<and> makes_no_call c \<longrightarrow>
      games s' p = zero_session)"
proof (intro conjI impI)
  assume "\<forall>s'. games s' p = zero_session \<longrightarrow> c' s' = c s'"
  then show "makeGuess e c' s p suitGuess rankGuess = makeGuess e c s p suitGuess rankGuess"
    by (rule makeGuess_callee_on_cleared)
next
  show "makeGuess e (code_of (Accepts ((e', TxMakeGuess p suitGuess' rankGuess', r') # calls))) s p
       suitGuess rankGuess =
     makeGuess e (code_of (Accepts calls)) s p suitGuess rankGuess"
  proof (rule makeGuess_callee_on_cleared, intro allI impI)
    fix x :: state assume "games x p = zero_session"
    then show "code_of (Accepts ((e', TxMakeGuess p suitGuess' rankGuess', r') # calls)) x =
               code_of (Accepts calls) x"
      by (rule reentrant_guess_is_void)
  qed
next
  assume h: "makeGuess e (code_of r) s p suitGuess rankGuess = Inr (u, s', fx) \<and> opened p fx = 0"
  from makeGuess_Inr_D [OF h [THEN conjunct1]]
  obtain sm rm reward where
    alt: "(s' = s\<lparr>games := (games s)(p := zero_session)\<rparr> \<and>
           fx = [Log (GuessEvaluated p sm rm reward)]) \<or>
          (\<exists>fx0. code_of r (s\<lparr>games := (games s)(p := zero_session), balance := balance s - reward\<rparr>) =
             Some (s', fx0) \<and> fx = fx0 @ [Log (GuessEvaluated p sm rm reward)])"
    by blast
  from alt show inactive: "\<not> active (games s' p)"
  proof
    assume "s' = s\<lparr>games := (games s)(p := zero_session)\<rparr> \<and>
            fx = [Log (GuessEvaluated p sm rm reward)]"
    then show ?thesis by (simp add: zero_session_inactive)
  next
    assume "\<exists>fx0. code_of r (s\<lparr>games := (games s)(p := zero_session), balance := balance s - reward\<rparr>) =
             Some (s', fx0) \<and> fx = fx0 @ [Log (GuessEvaluated p sm rm reward)]"
    then obtain fx0 where
      c: "code_of r (s\<lparr>games := (games s)(p := zero_session), balance := balance s - reward\<rparr>) =
            Some (s', fx0)"
      and f: "fx = fx0 @ [Log (GuessEvaluated p sm rm reward)]"
      by blast
    have "opened p fx0 = 0"
      using h f by (simp add: count_append)
    with code_of_session_count [OF c, of p] show ?thesis
      by (simp add: zero_session_inactive split: if_splits)
  qed
  then show "getActiveGame s' p = (False, 0, 0)"
    by (simp add: getActiveGame_def)
next
  assume h: "makeGuess e c s p suitGuess rankGuess = Inr (u, s', fx) \<and> makes_no_call c"
  then have q: "\<And>x y fx0. c x = Some (y, fx0) \<Longrightarrow> y = x"
    using makes_no_call_D [of c] by blast
  from makeGuess_Inr_D [OF h [THEN conjunct1]]
  obtain sm rm reward where
    alt: "(s' = s\<lparr>games := (games s)(p := zero_session)\<rparr> \<and>
           fx = [Log (GuessEvaluated p sm rm reward)]) \<or>
          (\<exists>fx0. c (s\<lparr>games := (games s)(p := zero_session), balance := balance s - reward\<rparr>) =
             Some (s', fx0) \<and> fx = fx0 @ [Log (GuessEvaluated p sm rm reward)])"
    by blast
  then show "games s' p = zero_session"
  proof
    assume "s' = s\<lparr>games := (games s)(p := zero_session)\<rparr> \<and>
            fx = [Log (GuessEvaluated p sm rm reward)]"
    then show ?thesis by simp
  next
    assume "\<exists>fx0. c (s\<lparr>games := (games s)(p := zero_session), balance := balance s - reward\<rparr>) =
             Some (s', fx0) \<and> fx = fx0 @ [Log (GuessEvaluated p sm rm reward)]"
    then obtain fx0 where
      "c (s\<lparr>games := (games s)(p := zero_session), balance := balance s - reward\<rparr>) = Some (s', fx0)"
      by blast
    from q [OF this] show ?thesis by simp
  qed
qed

theorem makeGuess_clears_before_transfer_witness:
  "makes_no_call plain_recipient \<and>
   active (games (playing_state FULL_REWARD) alice) \<and>
   makeGuess sample_env (\<lambda>s'. if active (games s' alice) then None else Some (s', []))
      (playing_state FULL_REWARD) alice 2 3 =
     Inr ((), (playing_state FULL_REWARD)\<lparr>games := (games (playing_state FULL_REWARD))(alice := zero_session),
                                          balance := 0\<rparr>,
          [Log (GuessEvaluated alice True True FULL_REWARD)]) \<and>
   opened alice [Log (GuessEvaluated alice True True FULL_REWARD)] = 0 \<and>
   games ((playing_state FULL_REWARD)\<lparr>games := (games (playing_state FULL_REWARD))(alice := zero_session),
                                       balance := 0\<rparr>) alice = zero_session \<and>
   getActiveGame ((playing_state FULL_REWARD)\<lparr>games := (games (playing_state FULL_REWARD))(alice := zero_session),
                                       balance := 0\<rparr>) alice = (False, 0, 0)"
proof -
  let ?s = "playing_state FULL_REWARD"
  let ?s' = "?s\<lparr>games := (games ?s)(alice := zero_session), balance := 0\<rparr>"
  let ?fx = "[Log (GuessEvaluated alice True True FULL_REWARD)]"
  let ?picky = "\<lambda>s'. if active (games s' alice) then None else Some (s', [])"
  have r: "(1::uint8) \<le> 2 \<and> (2::uint8) \<le> 4 \<and> (1::uint8) \<le> 3 \<and> (3::uint8) \<le> 13" by simp
  have a: "active (games ?s alice)"
    by (simp add: playing_state_alice sample_session_simps)
  have pos: "0 < FULL_REWARD"
    by (simp add: FULL_REWARD_def)
  have m: "makeGuess sample_env plain_recipient ?s alice 2 3 = Inr ((), ?s', ?fx)"
    using pos
    by (simp add: makeGuess_outcome [OF r a refl] playing_state_alice sample_session_simps
          sample_env_simps accounts_distinct recipient_simps)
  have m': "makeGuess sample_env (code_of (Accepts [])) ?s alice 2 3 = Inr ((), ?s', ?fx)"
    using m by (simp only: code_of_simps)
  have agree: "\<forall>s'. games s' alice = zero_session \<longrightarrow> ?picky s' = plain_recipient s'"
    by (simp add: recipient_simps zero_session_inactive)
  note t = makeGuess_clears_before_transfer
    [of alice ?picky plain_recipient sample_env ?s 2 3 sample_env 2 3 Rejects "[]" "Accepts []"
        "()" ?s' ?fx]
  have o: "opened alice ?fx = 0"
    by (simp add: count_simps)
  from t agree have p: "makeGuess sample_env ?picky ?s alice 2 3 =
      makeGuess sample_env plain_recipient ?s alice 2 3"
    by blast
  from t m' o have g: "getActiveGame ?s' alice = (False, 0, 0)"
    by blast
  from t m recipient_simps(3) have z: "games ?s' alice = zero_session"
    by blast
  show ?thesis
    using a o g z by (simp add: p m recipient_simps)
qed

text \<open>
  The claim as first stated, that after any successful \<open>makeGuess\<close> the caller is back
  without a session, fails for a caller whose code starts a game when it is paid. On a
  ledger that holds \<open>FULL_REWARD + GAME_FEE\<close> the exact guess succeeds, pays
  \<open>FULL_REWARD\<close>, and the caller ends with an active session, opened before the
  \<open>GuessEvaluated\<close> event is emitted.
\<close>

theorem makeGuess_reentrant_start:
  "fst (run_calls [(sample_env, TxStartGame alice GAME_FEE, Accepts [])] (initial_state bob FULL_REWARD)) =
     playing_state (FULL_REWARD + GAME_FEE) \<and>
   active (games (playing_state (FULL_REWARD + GAME_FEE)) alice) \<and>
   \<not> isl (makeGuess sample_env (code_of restarting) (playing_state (FULL_REWARD + GAME_FEE)) alice 2 3) \<and>
   active (games (state_after (playing_state (FULL_REWARD + GAME_FEE))
                    (makeGuess sample_env (code_of restarting)
                       (playing_state (FULL_REWARD + GAME_FEE)) alice 2 3)) alice) \<and>
   opened alice (effects_of (makeGuess sample_env (code_of restarting)
                       (playing_state (FULL_REWARD + GAME_FEE)) alice 2 3)) = 1 \<and>
   last (effects_of (makeGuess sample_env (code_of restarting)
                       (playing_state (FULL_REWARD + GAME_FEE)) alice 2 3)) =
     Log (GuessEvaluated alice True True FULL_REWARD)"
proof -
  let ?s = "playing_state (FULL_REWARD + GAME_FEE)"
  let ?s2 = "?s\<lparr>games := (games ?s)(alice := zero_session), balance := balance ?s - FULL_REWARD\<rparr>"
  have r: "(1::uint8) \<le> 2 \<and> (2::uint8) \<le> 4 \<and> (1::uint8) \<le> 3 \<and> (3::uint8) \<le> 13" by simp
  have a: "active (games ?s alice)"
    by (simp add: playing_state_alice sample_session_simps)
  have pos: "0 < FULL_REWARD"
    by (simp add: FULL_REWARD_def)
  have "\<not> active (games ?s2 alice)" "FULL_REWARD \<le> balance ?s2 + GAME_FEE"
    by (simp_all add: zero_session_inactive playing_state_alice GAME_FEE_def FULL_REWARD_def)
  from restarting_starts [OF this]
  obtain s3 fx0 suitHandle rankHandle where
    c: "code_of restarting ?s2 = Some (s3, fx0)" and act: "active (games s3 alice)"
    and fx0: "fx0 = [FheAllow suitHandle house, FheAllow rankHandle house,
                    FheAllow suitHandle alice, FheAllow rankHandle alice,
                    Log (GameStarted alice suitHandle rankHandle)]"
    by blast
  have m: "makeGuess sample_env (code_of restarting) ?s alice 2 3 =
           Inr ((), s3, fx0 @ [Log (GuessEvaluated alice True True FULL_REWARD)])"
    using pos c
    by (simp add: makeGuess_outcome [OF r a refl] playing_state_alice sample_session_simps
          sample_env_simps accounts_distinct)
  have reach: "fst (run_calls [(sample_env, TxStartGame alice GAME_FEE, Accepts [])]
                     (initial_state bob FULL_REWARD)) = playing_state (FULL_REWARD + GAME_FEE)"
    by (simp add: run_calls_def sample_start_funded outcome_def state_after_def)
  show ?thesis
    using a act reach by (simp add: m state_after_def effects_of_def fx0 opened_def)
qed

subsection \<open>Owner-only operations\<close>

text \<open>
  C7. For a caller who is not the owner, \<open>withdraw\<close> and \<open>transferOwnership\<close> fail with
  \<open>NotOwner\<close> and leave the state as it was. Called by the owner,
  \<open>withdraw(recipient, amount)\<close> fails with \<open>InvalidRecipient\<close> when the recipient is the
  zero address, else with \<open>AmountExceedsBalance\<close> when the amount exceeds the balance,
  and otherwise transfers the amount to the recipient (whose code is given control on
  the ledger with the amount taken out of the balance), failing with \<open>TransferFailed\<close>
  when the recipient rejects the transfer.
\<close>

theorem owner_only:
  "(caller \<noteq> owner s \<longrightarrow>
      withdraw e c s caller recipient amount = Inl NotOwner \<and>
      state_after s (withdraw e c s caller recipient amount) = s \<and>
      transferOwnership s caller newOwner = Inl NotOwner \<and>
      state_after s (transferOwnership s caller newOwner) = s) \<and>
   (caller = owner s \<and> recipient = 0 \<longrightarrow>
      withdraw e c s caller recipient amount = Inl InvalidRecipient) \<and>
   (caller = owner s \<and> recipient \<noteq> 0 \<and> balance s < amount \<longrightarrow>
      withdraw e c s caller recipient amount = Inl AmountExceedsBalance) \<and>
   (caller = owner s \<and> recipient \<noteq> 0 \<and> amount \<le> balance s \<longrightarrow>
      withdraw e c s caller recipient amount =
        (if recipient = this_address e then Inr ((), s, [])
         else case c (s\<lparr>balance := balance s - amount\<rparr>) of
                None \<Rightarrow> Inl TransferFailed
              | Some (s', fx) \<Rightarrow> Inr ((), s', fx)))"
  by (simp add: withdraw_def transferOwnership_def call_value_def state_after_def not_less)

theorem owner_only_witness:
  "alice \<noteq> owner (playing_state FULL_REWARD) \<and>
   withdraw sample_env plain_recipient (playing_state FULL_REWARD) alice alice 1 = Inl NotOwner \<and>
   transferOwnership (playing_state FULL_REWARD) alice alice = Inl NotOwner \<and>
   withdraw sample_env plain_recipient (playing_state FULL_REWARD) bob 0 1 = Inl InvalidRecipient \<and>
   withdraw sample_env plain_recipient (playing_state 0) bob bob 1 = Inl AmountExceedsBalance \<and>
   withdraw sample_env plain_recipient (playing_state 5) bob bob 3 =
     Inr ((), (playing_state 5)\<lparr>balance := 2\<rparr>, []) \<and>
   withdraw sample_env rejecting_recipient (playing_state 5) bob bob 3 = Inl TransferFailed"
  using owner_only [of alice "playing_state FULL_REWARD" sample_env plain_recipient alice 1 alice]
        owner_only [of bob "playing_state FULL_REWARD" sample_env plain_recipient 0 1]
        owner_only [of bob "playing_state 0" sample_env plain_recipient bob 1]
        owner_only [of bob "playing_state 5" sample_env plain_recipient bob 3]
        owner_only [of bob "playing_state 5" sample_env rejecting_recipient bob 3]
  by (simp add: playing_state_alice accounts_distinct sample_env_simps recipient_simps)

subsection \<open>What withdraw leaves alone\<close>

text \<open>
  C10, as amended. \<open>withdraw\<close> itself writes nothing but the balance: a successful
  \<open>withdraw\<close> hands the ledger, with only the balance reduced by the amount, to the
  code of the recipient, and ends with the ledger and the effects that this code
  returns. When the recipient makes no call into the ledger, a successful \<open>withdraw\<close>
  leaves the sessions of all players (active flag, suit, rank, handles), the owner and
  the nonce as they were and emits nothing; only the balance goes down, by the amount.
  (A recipient that calls back into the ledger while it is paid can change them: the
  contract has no re-entrancy guard.) The success of \<open>withdraw\<close> to a recipient that
  accepts depends on the caller, the recipient and the amount alone: nothing keeps the
  remaining balance at \<open>FULL_REWARD\<close> or above while a session is active, and the
  owner can withdraw the whole balance while a player's session is active.
\<close>

theorem withdraw_frame:
  "(withdraw e c s caller recipient amount = Inr (u, s', fx) \<longrightarrow>
      (recipient = this_address e \<and> s' = s \<and> fx = []) \<or>
      (recipient \<noteq> this_address e \<and> c (s\<lparr>balance := balance s - amount\<rparr>) = Some (s', fx))) \<and>
   (withdraw e c s caller recipient amount = Inr (u, s', fx) \<and> makes_no_call c \<longrightarrow>
      games s' = games s \<and> owner s' = owner s \<and> nonce s' = nonce s \<and>
      (\<forall>p. getActiveGame s' p = getActiveGame s p) \<and>
      balance s' = (if recipient = this_address e then balance s else balance s - amount) \<and>
      fx = []) \<and>
   (caller = owner s \<and> recipient \<noteq> 0 \<and> recipient \<noteq> this_address e \<and> amount \<le> balance s \<longrightarrow>
      withdraw e plain_recipient s caller recipient amount =
        Inr ((), s\<lparr>balance := balance s - amount\<rparr>, []))"
proof (intro conjI impI allI)
  assume ok: "withdraw e c s caller recipient amount = Inr (u, s', fx)"
  from withdraw_Inr_D [OF ok]
  show "(recipient = this_address e \<and> s' = s \<and> fx = []) \<or>
        (recipient \<noteq> this_address e \<and> c (s\<lparr>balance := balance s - amount\<rparr>) = Some (s', fx))"
    by simp
next
  assume h: "withdraw e c s caller recipient amount = Inr (u, s', fx) \<and> makes_no_call c"
  from withdraw_Inr_D [OF h [THEN conjunct1]]
  have alt: "(recipient = this_address e \<and> s' = s \<and> fx = []) \<or>
        (recipient \<noteq> this_address e \<and> c (s\<lparr>balance := balance s - amount\<rparr>) = Some (s', fx))"
    by simp
  have d: "(recipient = this_address e \<and> s' = s \<and> fx = []) \<or>
        (recipient \<noteq> this_address e \<and> s' = s\<lparr>balance := balance s - amount\<rparr> \<and> fx = [])"
    using alt makes_no_call_D [OF h [THEN conjunct2], of "s\<lparr>balance := balance s - amount\<rparr>" s' fx]
    by blast
  from d show "games s' = games s" "owner s' = owner s" "nonce s' = nonce s" "fx = []"
    "balance s' = (if recipient = this_address e then balance s else balance s - amount)"
    by auto
  fix p
  from d show "getActiveGame s' p = getActiveGame s p"
    by (auto simp add: getActiveGame_def)
next
  assume "caller = owner s \<and> recipient \<noteq> 0 \<and> recipient \<noteq> this_address e \<and> amount \<le> balance s"
  then show "withdraw e plain_recipient s caller recipient amount =
        Inr ((), s\<lparr>balance := balance s - amount\<rparr>, [])"
    by (simp add: withdraw_def call_value_def recipient_simps)
qed

theorem withdraw_frame_witness:
  "makes_no_call plain_recipient \<and>
   active (games (playing_state FULL_REWARD) alice) \<and>
   withdraw sample_env plain_recipient (playing_state FULL_REWARD) bob bob FULL_REWARD =
     Inr ((), (playing_state FULL_REWARD)\<lparr>balance := 0\<rparr>, []) \<and>
   balance ((playing_state FULL_REWARD)\<lparr>balance := 0\<rparr>) < FULL_REWARD \<and>
   games ((playing_state FULL_REWARD)\<lparr>balance := 0\<rparr>) = games (playing_state FULL_REWARD) \<and>
   active (games ((playing_state FULL_REWARD)\<lparr>balance := 0\<rparr>) alice)"
proof -
  let ?s = "playing_state FULL_REWARD"
  have a: "active (games ?s alice)"
    by (simp add: playing_state_alice sample_session_simps)
  have pre: "bob = owner ?s \<and> bob \<noteq> 0 \<and> bob \<noteq> this_address sample_env \<and> FULL_REWARD \<le> balance ?s"
    by (simp add: playing_state_alice accounts_distinct sample_env_simps)
  note t = withdraw_frame [of sample_env plain_recipient ?s bob bob FULL_REWARD "()"
      "?s\<lparr>balance := 0\<rparr>" "[]"]
  have w: "withdraw sample_env plain_recipient ?s bob bob FULL_REWARD = Inr ((), ?s\<lparr>balance := 0\<rparr>, [])"
    using t pre by (simp add: playing_state_alice)
  from t w recipient_simps(3) have g: "games (?s\<lparr>balance := 0\<rparr>) = games ?s"
    by blast
  show ?thesis
    using a w g by (simp add: FULL_REWARD_def recipient_simps)
qed

text \<open>
  The claim as first stated, for every successful \<open>withdraw\<close>, fails for a recipient
  whose code calls back into the ledger. On a ledger without sessions that holds
  \<open>FULL_REWARD + GAME_FEE\<close>, the owner withdraws \<open>GAME_FEE\<close> to \<open>alice\<close>, whose code
  starts a game with it: the \<open>withdraw\<close> succeeds, and \<open>alice\<close> has an active session
  and the nonce has moved when it returns. And when the owner withdraws to itself and
  its code transfers the ownership while it is paid, the owner has changed when the
  successful \<open>withdraw\<close> returns.
\<close>

theorem withdraw_reentrant_start:
  "\<not> active (games (initial_state bob (FULL_REWARD + GAME_FEE)) alice) \<and>
   \<not> isl (withdraw sample_env (code_of restarting) (initial_state bob (FULL_REWARD + GAME_FEE))
             bob alice GAME_FEE) \<and>
   active (games (state_after (initial_state bob (FULL_REWARD + GAME_FEE))
                    (withdraw sample_env (code_of restarting)
                       (initial_state bob (FULL_REWARD + GAME_FEE)) bob alice GAME_FEE)) alice) \<and>
   nonce (state_after (initial_state bob (FULL_REWARD + GAME_FEE))
            (withdraw sample_env (code_of restarting)
               (initial_state bob (FULL_REWARD + GAME_FEE)) bob alice GAME_FEE)) = 1 \<and>
   opened alice (effects_of (withdraw sample_env (code_of restarting)
                   (initial_state bob (FULL_REWARD + GAME_FEE)) bob alice GAME_FEE)) = 1 \<and>
   owner (initial_state bob GAME_FEE) = bob \<and>
   withdraw sample_env (code_of handing_over) (initial_state bob GAME_FEE) bob bob GAME_FEE =
     Inr ((), (initial_state bob GAME_FEE)\<lparr>balance := 0, owner := alice\<rparr>,
          [Log (OwnershipTransferred bob alice)])"
proof -
  let ?s = "initial_state bob (FULL_REWARD + GAME_FEE)"
  let ?s1 = "?s\<lparr>balance := balance ?s - GAME_FEE\<rparr>"
  have i: "\<not> active (games ?s alice)"
    by (simp add: initial_state_simps zero_session_inactive)
  have "\<not> active (games ?s1 alice)" "FULL_REWARD \<le> balance ?s1 + GAME_FEE"
    by (simp_all add: initial_state_simps zero_session_inactive)
  from restarting_starts [OF this]
  obtain s2 fx0 suitHandle rankHandle where
    c: "code_of restarting ?s1 = Some (s2, fx0)" and act: "active (games s2 alice)"
    and n: "nonce s2 = nonce ?s1 + 1"
    and fx0: "fx0 = [FheAllow suitHandle house, FheAllow rankHandle house,
                    FheAllow suitHandle alice, FheAllow rankHandle alice,
                    Log (GameStarted alice suitHandle rankHandle)]"
    by blast
  have w: "withdraw sample_env (code_of restarting) ?s bob alice GAME_FEE = Inr ((), s2, fx0)"
    using c
    by (simp add: withdraw_def call_value_def initial_state_simps accounts_distinct sample_env_simps)
  have h: "withdraw sample_env (code_of handing_over) (initial_state bob GAME_FEE) bob bob GAME_FEE =
     Inr ((), (initial_state bob GAME_FEE)\<lparr>balance := 0, owner := alice\<rparr>,
          [Log (OwnershipTransferred bob alice)])"
    by (simp add: withdraw_def call_value_def handing_over_def transferOwnership_def outcome_def
          state_after_def effects_of_def initial_state_simps accounts_distinct sample_env_simps)
  show ?thesis
    using i act n h
    by (simp add: w state_after_def effects_of_def fx0 opened_def initial_state_simps)
qed

subsection \<open>The drawn card\<close>

















section \<open>Properties of the client\<close>

lemma findGuessEvaluated_none:
  "\<forall>l\<in>set logs. \<forall>args. l \<noteq> LogDescription ''GuessEvaluated'' args \<Longrightarrow>
   findGuessEvaluated logs = None"
  by (induction logs rule: findGuessEvaluated.induct) auto

lemma findGameStarted_none:
  "\<forall>l\<in>set logs. \<forall>args. l \<noteq> LogDescription ''GameStarted'' args \<Longrightarrow>
   findGameStarted logs = (None, None)"
  by (induction logs rule: findGameStarted.induct) auto

lemma formatError_Error: "formatError parseError (Error msg) = msg"
  by (simp add: formatError_def)

lemma ready_client_simps:
  "isConnected ready_client" "signer ready_client" "activeGame ready_client" "address ready_client"
  by (simp_all add: ready_client_def)

lemma sample_revert_message:
  "formatError sample_parseError (Thrown sample_revert) = ''No active game found for this wallet.''"
  by (simp add: formatError_def sample_revert_def sample_parseError_def messageMap_def)

text \<open>
  C8, as amended. With a wallet connected and a signer available: when the guess
  transaction confirms and no log of the receipt is a \<open>GuessEvaluated\<close> event, the guess
  mutation fails with the error "Unable to read guess result from transaction logs.",
  which the user sees as such, and which is not the error of a transaction that
  reverts (that one is the RPC layer's error, passed on). When the start transaction
  confirms and no log is a \<open>GameStarted\<close> event, the start mutation does not fail: it
  resolves with no handles and the user sees the success message.
\<close>

theorem event_not_found:
  assumes "isConnected c" and "signer c"
  shows "(activeGame c \<and> (\<forall>l\<in>set logs. \<forall>args. l \<noteq> LogDescription ''GuessEvaluated'' args) \<longrightarrow>
            guessMutationFn c (TxReceipt logs) =
              Inl (Error ''Unable to read guess result from transaction logs.'') \<and>
            feedback (guessMutation parseError formatEther c (TxReceipt logs) u) =
              Some (Feedback FeedbackError ''Unable to read guess result from transaction logs.'') \<and>
            guessMutationFn c (TxFailed e) = Inl (Thrown e) \<and>
            guessMutationFn c (TxReceipt logs) \<noteq> guessMutationFn c (TxFailed e)) \<and>
         ((\<forall>l\<in>set logs. \<forall>args. l \<noteq> LogDescription ''GameStarted'' args) \<longrightarrow>
            startGameMutationFn c (TxReceipt logs) = Inr None \<and>
            feedback (startGameMutation parseError c (TxReceipt logs) u) =
              Some (Feedback FeedbackSuccess ''A fresh encrypted card is ready. Time to guess!'') \<and>
            lastHandles (startGameMutation parseError c (TxReceipt logs) u) = None \<and>
            startGameMutationFn c (TxFailed e) = Inl (Thrown e))"
proof (intro conjI impI)
  assume h: "activeGame c \<and> (\<forall>l\<in>set logs. \<forall>args. l \<noteq> LogDescription ''GuessEvaluated'' args)"
  then have n: "findGuessEvaluated logs = None"
    by (intro findGuessEvaluated_none) simp
  show g: "guessMutationFn c (TxReceipt logs) =
              Inl (Error ''Unable to read guess result from transaction logs.'')"
    using assms h by (simp add: guessMutationFn_def n)
  show "feedback (guessMutation parseError formatEther c (TxReceipt logs) u) =
              Some (Feedback FeedbackError ''Unable to read guess result from transaction logs.'')"
    by (simp add: guessMutation_def g formatError_Error)
  show f: "guessMutationFn c (TxFailed e) = Inl (Thrown e)"
    using assms h by (simp add: guessMutationFn_def)
  show "guessMutationFn c (TxReceipt logs) \<noteq> guessMutationFn c (TxFailed e)"
    by (simp add: g f)
next
  assume "\<forall>l\<in>set logs. \<forall>args. l \<noteq> LogDescription ''GameStarted'' args"
  then have n: "findGameStarted logs = (None, None)"
    by (rule findGameStarted_none)
  show s: "startGameMutationFn c (TxReceipt logs) = Inr None"
    using assms by (simp add: startGameMutationFn_def n handles_or_null_def)
  show "feedback (startGameMutation parseError c (TxReceipt logs) u) =
              Some (Feedback FeedbackSuccess ''A fresh encrypted card is ready. Time to guess!'')"
    by (simp add: startGameMutation_def s)
  show "lastHandles (startGameMutation parseError c (TxReceipt logs) u) = None"
    by (simp add: startGameMutation_def s)
  show "startGameMutationFn c (TxFailed e) = Inl (Thrown e)"
    using assms by (simp add: startGameMutationFn_def)
qed

theorem event_not_found_witness:
  "guessMutationFn ready_client (TxReceipt [ParseNull, ParseThrows, LogDescription ''Transfer'' OtherArgs]) =
     Inl (Error ''Unable to read guess result from transaction logs.'') \<and>
   feedback (guessMutation sample_parseError (\<lambda>n. ''0.002'') ready_client
              (TxReceipt [ParseNull, ParseThrows, LogDescription ''Transfer'' OtherArgs]) blank_ui) =
     Some (Feedback FeedbackError ''Unable to read guess result from transaction logs.'') \<and>
   feedback (guessMutation sample_parseError (\<lambda>n. ''0.002'') ready_client
              (TxFailed sample_revert) blank_ui) =
     Some (Feedback FeedbackError ''No active game found for this wallet.'') \<and>
   startGameMutationFn ready_client (TxReceipt [ParseNull, ParseThrows, LogDescription ''Transfer'' OtherArgs]) =
     Inr None"
proof -
  let ?logs = "[ParseNull, ParseThrows, LogDescription ''Transfer'' OtherArgs]"
  have a: "\<forall>l\<in>set ?logs. \<forall>args. l \<noteq> LogDescription ''GuessEvaluated'' args"
    and b: "\<forall>l\<in>set ?logs. \<forall>args. l \<noteq> LogDescription ''GameStarted'' args"
    by simp_all
  note t = event_not_found [OF ready_client_simps(1,2), of ?logs sample_parseError
      "\<lambda>n. ''0.002''" blank_ui sample_revert]
  have r: "feedback (guessMutation sample_parseError (\<lambda>n. ''0.002'') ready_client
              (TxFailed sample_revert) blank_ui) =
     Some (Feedback FeedbackError ''No active game found for this wallet.'')"
    using t a ready_client_simps(3)
    by (simp add: guessMutation_def sample_revert_message)
  from t a b ready_client_simps(3) r show ?thesis
    by blast
qed

text \<open>
  The claim as first stated, for both mutations, fails for the start mutation: on a
  confirmed transaction whose receipt holds no \<open>GameStarted\<close> event the client reports
  success, not a failure to read the result.
\<close>

theorem startGame_event_missing_reports_success:
  "startGameMutationFn ready_client (TxReceipt []) = Inr None \<and>
   feedback (startGameMutation sample_parseError ready_client (TxReceipt []) blank_ui) =
     Some (Feedback FeedbackSuccess ''A fresh encrypted card is ready. Time to guess!'')"
  by (simp add: startGameMutation_def startGameMutationFn_def handles_or_null_def ready_client_def)

end
